theory Spec2Isabelle
  imports Complex_Main
begin

section \<open>JavaScript strings\<close>

text \<open>
  Strings are character lists. The case mappings cover the ASCII letters; every other
  character is left as it is. \<open>trim\<close> removes the ASCII white space at both ends.
\<close>

definition upper_letters :: string where
  "upper_letters = ''ABCDEFGHIJKLMNOPQRSTUVWXYZ''"

definition lower_letters :: string where
  "lower_letters = ''abcdefghijklmnopqrstuvwxyz''"

definition lower_char :: "char \<Rightarrow> char" where
  "lower_char c = (case map_of (zip upper_letters lower_letters) c of None \<Rightarrow> c | Some d \<Rightarrow> d)"

definition upper_char :: "char \<Rightarrow> char" where
  "upper_char c = (case map_of (zip lower_letters upper_letters) c of None \<Rightarrow> c | Some d \<Rightarrow> d)"

definition toLowerCase :: "string \<Rightarrow> string" where
  "toLowerCase s = map lower_char s"

definition toUpperCase :: "string \<Rightarrow> string" where
  "toUpperCase s = map upper_char s"

definition is_space :: "char \<Rightarrow> bool" where
  "is_space c = (c = CHR '' '' \<or> c = CHR 0x09 \<or> c = CHR 0x0A \<or> c = CHR 0x0B
                 \<or> c = CHR 0x0C \<or> c = CHR 0x0D)"

definition trim :: "string \<Rightarrow> string" where
  "trim s = rev (dropWhile is_space (rev (dropWhile is_space s)))"

text \<open>\<^verbatim>\<open>s.charAt(0)\<close> is the empty string when \<open>s\<close> is empty; \<^verbatim>\<open>s.slice(1)\<close> drops one character.\<close>

definition charAt0 :: "string \<Rightarrow> string" where
  "charAt0 s = take 1 s"

definition slice1 :: "string \<Rightarrow> string" where
  "slice1 s = drop 1 s"

text \<open>
  \<^verbatim>\<open>s.split(' ')\<close>: one part per maximal run without a space, empty parts included, so the
  empty string gives one empty part and two adjacent spaces give an empty part between them.
\<close>

fun split_space :: "string \<Rightarrow> string list" where
  "split_space [] = [[]]"
| "split_space (c # cs) =
     (if c = CHR '' '' then [] # split_space cs
      else (case split_space cs of [] \<Rightarrow> [[c]] | p # ps \<Rightarrow> (c # p) # ps))"

section \<open>Token extraction and the auth guard\<close>

text \<open>
  \<^verbatim>\<open>utils/jwt.js\<close>, \<^verbatim>\<open>extractTokenFromHeader\<close>. The header is \<open>None\<close> when the request has no
  Authorization header (\<^verbatim>\<open>undefined\<close>); the empty string is falsy as well.
\<close>

definition extractTokenFromHeader :: "string option \<Rightarrow> string option" where
  "extractTokenFromHeader authHeader =
     (case authHeader of
        None \<Rightarrow> None
      | Some h \<Rightarrow>
          if h = [] then None
          else (let parts = split_space h in
                if length parts \<noteq> 2 \<or> parts ! 0 \<noteq> ''Bearer'' then None
                else Some (parts ! 1)))"

text \<open>
  Modelled from the spec: the User model (\<^verbatim>\<open>models/User.js\<close>) is not among the sources. Its
  fields are those the spec's data model lists and the controllers read.
\<close>

record user =
  user_id :: nat
  username :: string
  email :: string
  role :: string
  user_isActive :: bool

text \<open>
  \<^verbatim>\<open>jwt.verify\<close> belongs to the jsonwebtoken library: it either returns the decoded payload or
  throws an error with a name. It is a parameter of the model. \<^verbatim>\<open>verifyToken\<close> of
  \<^verbatim>\<open>utils/jwt.js\<close> turns the error's name into a message.
\<close>

datatype jwt_error = TokenExpiredError | JsonWebTokenError | OtherJwtError

record decoded =
  decoded_id :: nat

definition verifyToken :: "(string \<Rightarrow> jwt_error + decoded) \<Rightarrow> string \<Rightarrow> string + decoded" where
  "verifyToken jwt_verify token =
     (case jwt_verify token of
        Inr d \<Rightarrow> Inr d
      | Inl TokenExpiredError \<Rightarrow> Inl ''Token has expired''
      | Inl JsonWebTokenError \<Rightarrow> Inl ''Invalid token''
      | Inl OtherJwtError \<Rightarrow> Inl ''Token verification failed'')"

text \<open>
  A middleware either answers the request itself (status and message) or calls \<^verbatim>\<open>next()\<close>;
  \<open>Next u\<close> carries \<^verbatim>\<open>req.user\<close> as it is when the next handler runs. \<^verbatim>\<open>User.findById\<close> is a
  parameter: it throws (\<open>Inl\<close> with the error's message), finds nothing, or finds a user.
\<close>

datatype outcome = Respond nat string | Next "user option"

definition message_or_invalid :: "string \<Rightarrow> string" where
  "message_or_invalid m = (if m = [] then ''Invalid token'' else m)"

definition authenticate ::
  "(string \<Rightarrow> jwt_error + decoded) \<Rightarrow> (nat \<Rightarrow> string + user option) \<Rightarrow> string option \<Rightarrow> outcome" where
  "authenticate jwt_verify findUserById authHeader =
     (case extractTokenFromHeader authHeader of
        None \<Rightarrow> Respond 401 ''Access denied. No token provided.''
      | Some token \<Rightarrow>
          if token = [] then Respond 401 ''Access denied. No token provided.''
          else (case verifyToken jwt_verify token of
                  Inl m \<Rightarrow> Respond 401 (message_or_invalid m)
                | Inr d \<Rightarrow>
                    (case findUserById (decoded_id d) of
                       Inl m \<Rightarrow> Respond 401 (message_or_invalid m)
                     | Inr None \<Rightarrow> Respond 401 ''Access denied. User not found or inactive.''
                     | Inr (Some u) \<Rightarrow>
                         if \<not> user_isActive u
                         then Respond 401 ''Access denied. User not found or inactive.''
                         else Next (Some u))))"

definition optionalAuth ::
  "(string \<Rightarrow> jwt_error + decoded) \<Rightarrow> (nat \<Rightarrow> string + user option) \<Rightarrow> string option \<Rightarrow> outcome" where
  "optionalAuth jwt_verify findUserById authHeader =
     (case extractTokenFromHeader authHeader of
        None \<Rightarrow> Next None
      | Some token \<Rightarrow>
          if token = [] then Next None
          else (case verifyToken jwt_verify token of
                  Inl m \<Rightarrow> Next None
                | Inr d \<Rightarrow>
                    (case findUserById (decoded_id d) of
                       Inl m \<Rightarrow> Next None
                     | Inr None \<Rightarrow> Next None
                     | Inr (Some u) \<Rightarrow> if user_isActive u then Next (Some u) else Next None)))"

section \<open>The listing data model\<close>

text \<open>
  \<^verbatim>\<open>models/Car.js\<close>. Numbers are exact: \<open>price\<close> and \<open>mileage\<close> are reals (the schema and the
  validator allow fractions), \<open>year\<close>, \<open>viewCount\<close> and the timestamps are integers. An
  ObjectId is a natural number. The fields \<^verbatim>\<open>_id\<close>, \<^verbatim>\<open>make\<close> and \<^verbatim>\<open>model\<close> are \<open>car_id\<close>, \<open>car_make\<close>
  and \<open>car_model\<close>. \<open>createdAt\<close> and \<open>updatedAt\<close> come from the schema option
  \<^verbatim>\<open>timestamps: true\<close>.
\<close>

record image =
  url :: string
  alt :: "string option"

record location =
  city :: string
  state :: string
  country :: string

record seller =
  seller_name :: string
  seller_phone :: string
  seller_email :: "string option"

record car =
  car_id :: nat
  car_make :: string
  car_model :: string
  year :: int
  price :: real
  mileage :: real
  fuelType :: string
  transmission :: string
  bodyType :: string
  color :: string
  description :: "string option"
  features :: "string list"
  images :: "image list"
  location :: location
  seller :: seller
  status :: string
  isActive :: bool
  viewCount :: int
  createdAt :: int
  updatedAt :: int

text \<open>
  The request body as \<^verbatim>\<open>validateRequest(carValidationSchema)\<close> hands it to \<^verbatim>\<open>createCar\<close> and
  \<^verbatim>\<open>updateCar\<close> (both routes run it first): unknown keys are stripped, the required keys
  are there, \<open>status\<close> and \<open>country\<close> have their defaults, and \<open>description\<close>, \<open>features\<close>,
  \<open>images\<close> and the seller's email may be missing.
\<close>

record car_body =
  b_make :: string
  b_model :: string
  b_year :: int
  b_price :: real
  b_mileage :: real
  b_fuelType :: string
  b_transmission :: string
  b_bodyType :: string
  b_color :: string
  b_description :: "string option"
  b_features :: "string list option"
  b_images :: "image list option"
  b_location :: location
  b_seller :: seller
  b_status :: string

text \<open>
  What the code takes from outside the repository:
  \<^item> the year the schema was loaded in (\<^verbatim>\<open>new Date().getFullYear()\<close>);
  \<^item> the regular-expression engine, as the tests of the phone pattern and of the email
    pattern, whether \<^verbatim>\<open>new RegExp(p, 'i')\<close> accepts the pattern \<open>p\<close> (it throws a SyntaxError
    otherwise), and the test of that expression on a string;
  \<^item> the cast of the string \<^verbatim>\<open>req.params.id\<close> to an ObjectId, which \<^verbatim>\<open>Car.findById\<close> and
    \<^verbatim>\<open>Car.findByIdAndUpdate\<close> make first: \<open>None\<close> when the string is not an ObjectId, and then
    they throw a CastError;
  \<^item> the accumulator \<^verbatim>\<open>$avg\<close> of the store, which computes in floating point. Nothing is
    assumed of it.
\<close>

record runtime =
  this_year :: int
  phone_re :: "string \<Rightarrow> bool"
  email_re :: "string \<Rightarrow> bool"
  regex_compiles :: "string \<Rightarrow> bool"
  regex_i :: "string \<Rightarrow> string \<Rightarrow> bool"
  castObjectId :: "string \<Rightarrow> nat option"
  db_avg :: "real list \<Rightarrow> real"

text \<open>
  \<open>NotFound\<close> is the 404 the handlers answer themselves. The other errors are thrown
  inside a handler's \<^verbatim>\<open>try\<close> and handed to \<^verbatim>\<open>next(error)\<close>; the error middleware that
  receives them is not part of the model.
\<close>

datatype error = NotFound | ValidationError | StoreError | SyntaxError | CastError

subsection \<open>Schema setters, validators and the pre-save hook\<close>

text \<open>The setters of the schema (\<^verbatim>\<open>trim\<close>, \<^verbatim>\<open>lowercase\<close>), which run on create and on update.\<close>

definition cast_image :: "image \<Rightarrow> image" where
  "cast_image i = \<lparr>url = trim (url i), alt = map_option trim (alt i)\<rparr>"

definition cast_location :: "location \<Rightarrow> location" where
  "cast_location l = \<lparr>city = trim (city l), state = trim (state l), country = trim (country l)\<rparr>"

definition cast_seller :: "seller \<Rightarrow> seller" where
  "cast_seller s =
     \<lparr>seller_name = trim (seller_name s), seller_phone = trim (seller_phone s),
      seller_email = map_option (\<lambda>e. toLowerCase (trim e)) (seller_email s)\<rparr>"

definition cast_body :: "car_body \<Rightarrow> car_body" where
  "cast_body b =
     \<lparr>b_make = trim (b_make b), b_model = trim (b_model b), b_year = b_year b,
      b_price = b_price b, b_mileage = b_mileage b,
      b_fuelType = toLowerCase (b_fuelType b),
      b_transmission = toLowerCase (b_transmission b),
      b_bodyType = toLowerCase (b_bodyType b),
      b_color = trim (b_color b),
      b_description = map_option trim (b_description b),
      b_features = map_option (map trim) (b_features b),
      b_images = map_option (map cast_image) (b_images b),
      b_location = cast_location (b_location b),
      b_seller = cast_seller (b_seller b),
      b_status = b_status b\<rparr>"

text \<open>
  The validators of the schema on the cast values. \<^verbatim>\<open>required\<close> rejects the empty string;
  \<^verbatim>\<open>match\<close> lets the empty string through.
\<close>

definition required_max :: "nat \<Rightarrow> string \<Rightarrow> bool" where
  "required_max n s = (s \<noteq> [] \<and> length s \<le> n)"

definition image_valid :: "image \<Rightarrow> bool" where
  "image_valid i = (url i \<noteq> [] \<and> (case alt i of None \<Rightarrow> True | Some a \<Rightarrow> length a \<le> 200))"

definition location_valid :: "location \<Rightarrow> bool" where
  "location_valid l = (required_max 50 (city l) \<and> required_max 50 (state l) \<and> required_max 50 (country l))"

definition seller_valid :: "runtime \<Rightarrow> seller \<Rightarrow> bool" where
  "seller_valid rt s =
     (required_max 100 (seller_name s)
      \<and> seller_phone s \<noteq> [] \<and> phone_re rt (seller_phone s)
      \<and> (case seller_email s of None \<Rightarrow> True | Some e \<Rightarrow> e = [] \<or> email_re rt e))"

definition body_valid :: "runtime \<Rightarrow> car_body \<Rightarrow> bool" where
  "body_valid rt b =
     (required_max 50 (b_make b) \<and> required_max 50 (b_model b)
      \<and> 1900 \<le> b_year b \<and> b_year b \<le> this_year rt + 1
      \<and> 0 \<le> b_price b \<and> b_price b \<le> 10000000
      \<and> 0 \<le> b_mileage b \<and> b_mileage b \<le> 1000000
      \<and> b_fuelType b \<in> set [''petrol'', ''diesel'', ''electric'', ''hybrid'', ''cng'', ''lpg'']
      \<and> b_transmission b \<in> set [''manual'', ''automatic'', ''cvt'']
      \<and> b_bodyType b \<in> set [''sedan'', ''hatchback'', ''suv'', ''coupe'', ''convertible'',
                               ''wagon'', ''pickup'', ''van'']
      \<and> required_max 30 (b_color b)
      \<and> (case b_description b of None \<Rightarrow> True | Some d \<Rightarrow> length d \<le> 1000)
      \<and> (case b_features b of None \<Rightarrow> True | Some fs \<Rightarrow> list_all (\<lambda>f. length f \<le> 100) fs)
      \<and> (case b_images b of None \<Rightarrow> True | Some is \<Rightarrow> list_all image_valid is)
      \<and> location_valid (b_location b)
      \<and> seller_valid rt (b_seller b)
      \<and> b_status b \<in> set [''available'', ''sold'', ''reserved''])"

text \<open>The \<^verbatim>\<open>pre('save')\<close> hook: first character upper case, the rest lower case.\<close>

definition capitalize :: "string \<Rightarrow> string" where
  "capitalize s = (if s = [] then s else toUpperCase (charAt0 s) @ toLowerCase (slice1 s))"

subsection \<open>The store\<close>

text \<open>
  The collection is the list of its documents in insertion order. \<^verbatim>\<open>findById\<close> returns the
  first document with the id; \<^verbatim>\<open>findByIdAndUpdate\<close> changes that document. Under
  \<^verbatim>\<open>timestamps: true\<close> every update through the model sets \<open>updatedAt\<close> as well, which the
  update functions below write out.
\<close>

definition findById :: "car list \<Rightarrow> nat \<Rightarrow> car option" where
  "findById store i = find (\<lambda>c. car_id c = i) store"

fun findByIdAndUpdate :: "nat \<Rightarrow> (car \<Rightarrow> car) \<Rightarrow> car list \<Rightarrow> car list" where
  "findByIdAndUpdate i f [] = []"
| "findByIdAndUpdate i f (c # cs) =
     (if car_id c = i then f c # cs else c # findByIdAndUpdate i f cs)"

text \<open>
  \<^verbatim>\<open>Car.create\<close>: setters, validation, the pre-save hook, the defaults of the schema
  (\<open>features\<close> and \<open>images\<close> empty, \<open>isActive\<close> true, \<open>viewCount\<close> 0), both timestamps, and the
  insertion, which the unique index on \<^verbatim>\<open>_id\<close> refuses for an id already there.
\<close>

definition Car_create ::
  "runtime \<Rightarrow> int \<Rightarrow> nat \<Rightarrow> car_body \<Rightarrow> car list \<Rightarrow> error + car \<times> car list" where
  "Car_create rt now oid carData store =
     (let b = cast_body carData in
      if \<not> body_valid rt b then Inl ValidationError
      else if oid \<in> set (map car_id store) then Inl StoreError
      else (let doc =
              \<lparr>car_id = oid,
               car_make = capitalize (b_make b), car_model = capitalize (b_model b),
               year = b_year b, price = b_price b, mileage = b_mileage b,
               fuelType = b_fuelType b, transmission = b_transmission b,
               bodyType = b_bodyType b, color = b_color b,
               description = b_description b,
               features = (case b_features b of None \<Rightarrow> [] | Some fs \<Rightarrow> fs),
               images = (case b_images b of None \<Rightarrow> [] | Some is \<Rightarrow> is),
               location = b_location b, seller = b_seller b, status = b_status b,
               isActive = True, viewCount = 0, createdAt = now, updatedAt = now\<rparr>
            in Inr (doc, store @ [doc])))"

text \<open>
  The update document of \<^verbatim>\<open>findByIdAndUpdate(id, req.body, ...)\<close>: every key of the body is
  set, nested objects as a whole; no save hook runs; \<open>updatedAt\<close> is refreshed.
\<close>

definition apply_body :: "int \<Rightarrow> car_body \<Rightarrow> car \<Rightarrow> car" where
  "apply_body now b c =
     c\<lparr>car_make := b_make b, car_model := b_model b, year := b_year b, price := b_price b,
       mileage := b_mileage b, fuelType := b_fuelType b, transmission := b_transmission b,
       bodyType := b_bodyType b, color := b_color b,
       description := (case b_description b of None \<Rightarrow> description c | Some d \<Rightarrow> Some d),
       features := (case b_features b of None \<Rightarrow> features c | Some fs \<Rightarrow> fs),
       images := (case b_images b of None \<Rightarrow> images c | Some is \<Rightarrow> is),
       location := b_location b, seller := b_seller b, status := b_status b,
       updatedAt := now\<rparr>"

section \<open>The listing lifecycle: \<^verbatim>\<open>controllers/carController.js\<close>\<close>

text \<open>
  Each handler takes what it reads of the request and the collection, and returns its
  answer with the collection afterwards. \<open>now\<close> is the clock and \<open>oid\<close> the ObjectId the driver
  generates; \<open>u\<close> is \<^verbatim>\<open>req.user\<close>, which \<^verbatim>\<open>authenticate\<close> has bound on the three private routes;
  \<open>param_id\<close> is the string \<^verbatim>\<open>req.params.id\<close>, which no middleware checks. The first query of
  \<^verbatim>\<open>getCar\<close>, \<^verbatim>\<open>updateCar\<close> and \<^verbatim>\<open>deleteCar\<close> casts it and throws when it is not an ObjectId.
\<close>

definition createCar ::
  "runtime \<Rightarrow> int \<Rightarrow> nat \<Rightarrow> user \<Rightarrow> car_body \<Rightarrow> car list \<Rightarrow> (error + car) \<times> car list" where
  "createCar rt now oid u body store =
     (let carData = body\<lparr>b_seller := (b_seller body)\<lparr>seller_email := Some (email u)\<rparr>\<rparr> in
      case Car_create rt now oid carData store of
        Inl e \<Rightarrow> (Inl e, store)
      | Inr (doc, store') \<Rightarrow> (Inr doc, store'))"

definition getCar :: "runtime \<Rightarrow> int \<Rightarrow> string \<Rightarrow> car list \<Rightarrow> (error + car) \<times> car list" where
  "getCar rt now param_id store =
     (case castObjectId rt param_id of
        None \<Rightarrow> (Inl CastError, store)
      | Some i \<Rightarrow>
          (case findById store i of
             None \<Rightarrow> (Inl NotFound, store)
           | Some c \<Rightarrow>
               if \<not> isActive c then (Inl NotFound, store)
               else (Inr c,
                     findByIdAndUpdate i
                       (\<lambda>d. d\<lparr>viewCount := viewCount d + 1, updatedAt := now\<rparr>) store)))"

definition updateCar ::
  "runtime \<Rightarrow> int \<Rightarrow> user \<Rightarrow> string \<Rightarrow> car_body \<Rightarrow> car list \<Rightarrow> (error + car) \<times> car list" where
  "updateCar rt now u param_id body store =
     (case castObjectId rt param_id of
        None \<Rightarrow> (Inl CastError, store)
      | Some i \<Rightarrow>
          (case findById store i of
             None \<Rightarrow> (Inl NotFound, store)
           | Some c \<Rightarrow>
               (let b = cast_body body in
                if \<not> body_valid rt b then (Inl ValidationError, store)
                else (Inr (apply_body now b c), findByIdAndUpdate i (apply_body now b) store))))"

definition deleteCar ::
  "runtime \<Rightarrow> int \<Rightarrow> user \<Rightarrow> string \<Rightarrow> car list \<Rightarrow> (error + unit) \<times> car list" where
  "deleteCar rt now u param_id store =
     (case castObjectId rt param_id of
        None \<Rightarrow> (Inl CastError, store)
      | Some i \<Rightarrow>
          (case findById store i of
             None \<Rightarrow> (Inl NotFound, store)
           | Some c \<Rightarrow>
               (Inr (),
                findByIdAndUpdate i (\<lambda>d. d\<lparr>isActive := False, updatedAt := now\<rparr>) store)))"

section \<open>The listing query compiler: \<^verbatim>\<open>getCars\<close>\<close>

text \<open>
  \<^verbatim>\<open>req.validatedQuery\<close>, which \<^verbatim>\<open>validateQuery(carQuerySchema)\<close> sets on the only route to
  \<^verbatim>\<open>getCars\<close>: numbers are numbers, \<open>page\<close>, \<open>limit\<close> and the year bounds are integers, and a key
  the request did not send is \<^verbatim>\<open>undefined\<close> (\<open>None\<close>).
\<close>

record car_query =
  q_page :: "int option"
  q_limit :: "int option"
  q_sort :: "string option"
  q_make :: "string option"
  q_model :: "string option"
  q_minPrice :: "real option"
  q_maxPrice :: "real option"
  q_minYear :: "int option"
  q_maxYear :: "int option"
  q_fuelType :: "string option"
  q_transmission :: "string option"
  q_bodyType :: "string option"
  q_city :: "string option"
  q_state :: "string option"
  q_status :: "string option"

text \<open>
  The filter object. A range is the object with the optional keys \<^verbatim>\<open>$gte\<close> and \<^verbatim>\<open>$lte\<close>;
  the text keys hold the source of a case-insensitive regular expression.
\<close>

record 'a range =
  gte :: "'a option"
  lte :: "'a option"

record car_filter =
  f_isActive :: bool
  f_status :: string
  f_make :: "string option"
  f_model :: "string option"
  f_price :: "real range option"
  f_year :: "int range option"
  f_fuelType :: "string option"
  f_transmission :: "string option"
  f_bodyType :: "string option"
  f_city :: "string option"
  f_state :: "string option"

text \<open>
  JavaScript truthiness, which the \<^verbatim>\<open>if (x)\<close> tests of \<^verbatim>\<open>getCars\<close> rely on: \<^verbatim>\<open>undefined\<close>, the
  number 0 and the empty string are falsy.
\<close>

definition truthy_num :: "'a::zero option \<Rightarrow> bool" where
  "truthy_num x = (case x of None \<Rightarrow> False | Some n \<Rightarrow> n \<noteq> 0)"

definition truthy_str :: "string option \<Rightarrow> bool" where
  "truthy_str x = (case x of None \<Rightarrow> False | Some s \<Rightarrow> s \<noteq> [])"

definition build_range :: "'a::zero option \<Rightarrow> 'a option \<Rightarrow> 'a range option" where
  "build_range lo hi =
     (if truthy_num lo \<or> truthy_num hi
      then Some \<lparr>gte = (if truthy_num lo then lo else None),
                 lte = (if truthy_num hi then hi else None)\<rparr>
      else None)"

text \<open>
  Building the filter throws when a text parameter that is present is not a regular
  expression; \<^verbatim>\<open>getCars\<close> hands the error on.
\<close>

definition pattern_ok :: "runtime \<Rightarrow> string option \<Rightarrow> bool" where
  "pattern_ok rt x = (case x of None \<Rightarrow> True | Some p \<Rightarrow> p = [] \<or> regex_compiles rt p)"

definition patterns_ok :: "runtime \<Rightarrow> car_query \<Rightarrow> bool" where
  "patterns_ok rt q =
     (pattern_ok rt (q_make q) \<and> pattern_ok rt (q_model q)
      \<and> pattern_ok rt (q_city q) \<and> pattern_ok rt (q_state q))"

definition build_filter :: "car_query \<Rightarrow> car_filter" where
  "build_filter q =
     \<lparr>f_isActive = True,
      f_status = (case q_status q of None \<Rightarrow> ''available'' | Some s \<Rightarrow> s),
      f_make = (if truthy_str (q_make q) then q_make q else None),
      f_model = (if truthy_str (q_model q) then q_model q else None),
      f_price = build_range (q_minPrice q) (q_maxPrice q),
      f_year = build_range (q_minYear q) (q_maxYear q),
      f_fuelType = (if truthy_str (q_fuelType q) then q_fuelType q else None),
      f_transmission = (if truthy_str (q_transmission q) then q_transmission q else None),
      f_bodyType = (if truthy_str (q_bodyType q) then q_bodyType q else None),
      f_city = (if truthy_str (q_city q) then q_city q else None),
      f_state = (if truthy_str (q_state q) then q_state q else None)\<rparr>"

text \<open>The store's reading of the filter: every key present must hold of the document.\<close>

definition in_range :: "'a::linorder range \<Rightarrow> 'a \<Rightarrow> bool" where
  "in_range r x =
     ((case gte r of None \<Rightarrow> True | Some a \<Rightarrow> a \<le> x)
      \<and> (case lte r of None \<Rightarrow> True | Some b \<Rightarrow> x \<le> b))"

definition opt_holds :: "'a option \<Rightarrow> ('a \<Rightarrow> bool) \<Rightarrow> bool" where
  "opt_holds x P = (case x of None \<Rightarrow> True | Some v \<Rightarrow> P v)"

definition matches :: "runtime \<Rightarrow> car_filter \<Rightarrow> car \<Rightarrow> bool" where
  "matches rt f c =
     (isActive c = f_isActive f \<and> status c = f_status f
      \<and> opt_holds (f_make f) (\<lambda>p. regex_i rt p (car_make c))
      \<and> opt_holds (f_model f) (\<lambda>p. regex_i rt p (car_model c))
      \<and> opt_holds (f_price f) (\<lambda>r. in_range r (price c))
      \<and> opt_holds (f_year f) (\<lambda>r. in_range r (year c))
      \<and> opt_holds (f_fuelType f) (\<lambda>v. fuelType c = v)
      \<and> opt_holds (f_transmission f) (\<lambda>v. transmission c = v)
      \<and> opt_holds (f_bodyType f) (\<lambda>v. bodyType c = v)
      \<and> opt_holds (f_city f) (\<lambda>p. regex_i rt p (city (location c)))
      \<and> opt_holds (f_state f) (\<lambda>p. regex_i rt p (state (location c))))"

text \<open>
  \<^verbatim>\<open>.sort(sort)\<close> for the eight values the query schema lets through; a leading minus is
  descending. Documents with equal keys keep the order of the collection.
\<close>

definition sort_cars :: "string \<Rightarrow> car list \<Rightarrow> car list" where
  "sort_cars s xs =
     (if s = ''price'' then sort_key price xs
      else if s = ''-price'' then sort_key (\<lambda>c. - price c) xs
      else if s = ''year'' then sort_key year xs
      else if s = ''-year'' then sort_key (\<lambda>c. - year c) xs
      else if s = ''mileage'' then sort_key mileage xs
      else if s = ''-mileage'' then sort_key (\<lambda>c. - mileage c) xs
      else if s = ''createdAt'' then sort_key createdAt xs
      else if s = ''-createdAt'' then sort_key (\<lambda>c. - createdAt c) xs
      else xs)"

text \<open>
  \<^verbatim>\<open>.limit(n)\<close>: 0 is no limit and a negative number counts as its absolute value.
  \<^verbatim>\<open>.skip(n)\<close> with a negative number is an error of the store.
\<close>

definition db_limit :: "int \<Rightarrow> 'a list \<Rightarrow> 'a list" where
  "db_limit n xs = (if n = 0 then xs else take (nat \<bar>n\<bar>) xs)"

text \<open>
  \<^verbatim>\<open>Math.ceil(total / limit)\<close> is not a finite number when \<open>limit\<close> is 0: \<^verbatim>\<open>Infinity\<close> or, for
  0 / 0, \<^verbatim>\<open>NaN\<close>. \<^verbatim>\<open>page < Infinity\<close> is true and \<^verbatim>\<open>page < NaN\<close> is false.
\<close>

datatype jsnum = Num int | Infinity | NaN

definition ceil_div :: "nat \<Rightarrow> int \<Rightarrow> jsnum" where
  "ceil_div t n =
     (if n = 0 then (if t = 0 then NaN else Infinity)
      else Num \<lceil>real t / real_of_int n\<rceil>)"

definition js_less :: "int \<Rightarrow> jsnum \<Rightarrow> bool" where
  "js_less p n = (case n of Num t \<Rightarrow> p < t | Infinity \<Rightarrow> True | NaN \<Rightarrow> False)"

record cars_page =
  count :: nat
  pg_page :: int
  pg_limit :: int
  pg_total :: nat
  totalPages :: jsnum
  hasNext :: bool
  hasPrev :: bool
  data :: "car list"

definition getCars :: "runtime \<Rightarrow> car_query \<Rightarrow> car list \<Rightarrow> error + cars_page" where
  "getCars rt q store =
     (let page_n = (case q_page q of None \<Rightarrow> 1 | Some p \<Rightarrow> p);
          limit_n = (case q_limit q of None \<Rightarrow> 10 | Some l \<Rightarrow> l);
          sort_s = (case q_sort q of None \<Rightarrow> ''-createdAt'' | Some s \<Rightarrow> s);
          fil = build_filter q;
          skip_n = (page_n - 1) * limit_n
      in if \<not> patterns_ok rt q then Inl SyntaxError
         else if skip_n < 0 then Inl StoreError
         else (let cars = db_limit limit_n (drop (nat skip_n)
                            (sort_cars sort_s (filter (matches rt fil) store)));
                   total_n = length (filter (matches rt fil) store);
                   pages = ceil_div total_n limit_n
               in Inr \<lparr>count = length cars, pg_page = page_n, pg_limit = limit_n,
                       pg_total = total_n, totalPages = pages,
                       hasNext = js_less page_n pages, hasPrev = (page_n > 1),
                       data = cars\<rparr>))"

section \<open>The aggregation engine: \<^verbatim>\<open>getCarStats\<close>\<close>

record overview =
  totalCars :: nat
  avgPrice :: real
  minPrice :: real
  maxPrice :: real
  avgYear :: real
  avgMileage :: real

record make_group =
  mg_id :: string
  mg_count :: nat
  mg_avgPrice :: real

record fuel_group =
  fg_id :: string
  fg_count :: nat

record car_stats =
  stats_overview :: "overview option"
  topMakes :: "make_group list"
  fuelTypeDistribution :: "fuel_group list"

text \<open>
  The accumulators \<^verbatim>\<open>$min\<close> and \<^verbatim>\<open>$max\<close> over the documents of a group, which is never empty;
  \<^verbatim>\<open>$avg\<close> is \<open>db_avg\<close> of the runtime, applied to the values of the group in the order of
  the collection.
\<close>

definition minimum :: "real list \<Rightarrow> real" where
  "minimum xs = fold min (tl xs) (hd xs)"

definition maximum :: "real list \<Rightarrow> real" where
  "maximum xs = fold max (tl xs) (hd xs)"

text \<open>\<^verbatim>\<open>$match: { isActive: true, status: 'available' }\<close>, the first stage of all three pipelines.\<close>

definition stats_match :: "car list \<Rightarrow> car list" where
  "stats_match store = filter (\<lambda>c. isActive c = True \<and> status c = ''available'') store"

text \<open>
  \<^verbatim>\<open>$group\<close> with \<^verbatim>\<open>_id: null\<close> gives one document, and none when nothing comes in; then
  \<^verbatim>\<open>stats[0] || {}\<close> is the empty object, here \<open>None\<close>.
\<close>

definition overview_of :: "runtime \<Rightarrow> car list \<Rightarrow> overview option" where
  "overview_of rt l =
     (if l = [] then None
      else Some \<lparr>totalCars = length l, avgPrice = db_avg rt (map price l),
                 minPrice = minimum (map price l), maxPrice = maximum (map price l),
                 avgYear = db_avg rt (map (\<lambda>c. real_of_int (year c)) l),
                 avgMileage = db_avg rt (map mileage l)\<rparr>)"

text \<open>
  \<^verbatim>\<open>$group\<close> by a key gives one document per distinct key; \<^verbatim>\<open>$sort: { count: -1 }\<close> orders
  them by count, largest first. The store leaves the order of groups with equal counts
  open; here they keep the order in which \<open>remdups\<close> lists the keys.
\<close>

definition group_by_make :: "runtime \<Rightarrow> car list \<Rightarrow> make_group list" where
  "group_by_make rt l =
     map (\<lambda>m. \<lparr>mg_id = m, mg_count = length (filter (\<lambda>c. car_make c = m) l),
                mg_avgPrice = db_avg rt (map price (filter (\<lambda>c. car_make c = m) l))\<rparr>)
         (remdups (map car_make l))"

definition group_by_fuelType :: "car list \<Rightarrow> fuel_group list" where
  "group_by_fuelType l =
     map (\<lambda>v. \<lparr>fg_id = v, fg_count = length (filter (\<lambda>c. fuelType c = v) l)\<rparr>)
         (remdups (map fuelType l))"

definition getCarStats :: "runtime \<Rightarrow> car list \<Rightarrow> car_stats" where
  "getCarStats rt store =
     \<lparr>stats_overview = overview_of rt (stats_match store),
      topMakes =
        take 10 (sort_key (\<lambda>g. - int (mg_count g)) (group_by_make rt (stats_match store))),
      fuelTypeDistribution =
        sort_key (\<lambda>g. - int (fg_count g)) (group_by_fuelType (stats_match store))\<rparr>"

section \<open>Example data\<close>

text \<open>
  A runtime whose phone and email patterns accept every string and whose regular
  expressions are plain texts, all accepted, found anywhere in the subject without regard
  to case. Its ObjectIds are the strings of 24 hexadecimal digits, read as numbers. Its
  \<^verbatim>\<open>$avg\<close> is the exact mean, which is also the nearest floating-point number for the
  groups of the examples below, whose means are whole numbers.
\<close>

definition hex_digit :: "char \<Rightarrow> nat option" where
  "hex_digit c = map_of (zip ''0123456789abcdefABCDEF'' ([0..<16] @ [10..<16])) c"

fun parse_hex :: "nat \<Rightarrow> string \<Rightarrow> nat option" where
  "parse_hex acc [] = Some acc"
| "parse_hex acc (c # cs) =
     (case hex_digit c of None \<Rightarrow> None | Some d \<Rightarrow> parse_hex (16 * acc + d) cs)"

definition hex24 :: "string \<Rightarrow> nat option" where
  "hex24 s = (if length s = 24 then parse_hex 0 s else None)"

definition mean :: "real list \<Rightarrow> real" where
  "mean xs = sum_list xs / real (length xs)"

definition contains_i :: "string \<Rightarrow> string \<Rightarrow> bool" where
  "contains_i p s =
     list_ex (\<lambda>i. take (length p) (drop i (toLowerCase s)) = toLowerCase p) [0..<Suc (length s)]"

definition example_runtime :: runtime where
  "example_runtime =
     \<lparr>this_year = 2025, phone_re = (\<lambda>s. True), email_re = (\<lambda>s. True),
      regex_compiles = (\<lambda>p. True), regex_i = contains_i, castObjectId = hex24,
      db_avg = mean\<rparr>"

definition alice :: user where
  "alice = \<lparr>user_id = 1, username = ''alice'', email = ''alice@example.com'',
            role = ''user'', user_isActive = True\<rparr>"

definition bob :: user where
  "bob = \<lparr>user_id = 2, username = ''bob'', email = ''bob@example.com'',
          role = ''user'', user_isActive = True\<rparr>"

definition honda_body :: car_body where
  "honda_body =
     \<lparr>b_make = ''hONDA'', b_model = ''city'', b_year = 2020, b_price = 800000,
      b_mileage = 20000, b_fuelType = ''petrol'', b_transmission = ''manual'',
      b_bodyType = ''sedan'', b_color = ''Red'', b_description = None, b_features = None,
      b_images = None,
      b_location = \<lparr>city = ''Chennai'', state = ''Tamil Nadu'', country = ''India''\<rparr>,
      b_seller = \<lparr>seller_name = ''Honda Seller'', seller_phone = ''+91 77777 66666'',
                  seller_email = Some ''mallory@example.com''\<rparr>,
      b_status = ''available''\<rparr>"

definition honda :: car where
  "honda =
     \<lparr>car_id = 7, car_make = ''Honda'', car_model = ''City'', year = 2020, price = 800000,
      mileage = 20000, fuelType = ''petrol'', transmission = ''manual'', bodyType = ''sedan'',
      color = ''Red'', description = None, features = [], images = [],
      location = \<lparr>city = ''Chennai'', state = ''Tamil Nadu'', country = ''India''\<rparr>,
      seller = \<lparr>seller_name = ''Honda Seller'', seller_phone = ''+91 77777 66666'',
                seller_email = Some ''alice@example.com''\<rparr>,
      status = ''available'', isActive = True, viewCount = 0, createdAt = 100,
      updatedAt = 100\<rparr>"

definition swift :: car where
  "swift =
     \<lparr>car_id = 8, car_make = ''Maruti suzuki'', car_model = ''Swift'', year = 2019,
      price = 600000, mileage = 25000, fuelType = ''petrol'', transmission = ''manual'',
      bodyType = ''hatchback'', color = ''White'', description = None, features = [],
      images = [],
      location = \<lparr>city = ''Mumbai'', state = ''Maharashtra'', country = ''India''\<rparr>,
      seller = \<lparr>seller_name = ''Test Seller'', seller_phone = ''+91 98765 43210'',
                seller_email = None\<rparr>,
      status = ''available'', isActive = True, viewCount = 3, createdAt = 200,
      updatedAt = 200\<rparr>"

text \<open>
  Thirteen active, available listings of twelve makes: one each of eleven makes, then two
  of the make \<^verbatim>\<open>Top\<close>.
\<close>

definition fleet :: "car list" where
  "fleet =
     map (\<lambda>(i, m). honda\<lparr>car_id := i, car_make := m\<rparr>)
       [(21, ''A''), (22, ''B''), (23, ''C''), (24, ''D''), (25, ''E''), (26, ''F''),
        (27, ''G''), (28, ''H''), (29, ''I''), (30, ''J''), (31, ''K''), (32, ''Top''),
        (33, ''Top'')]"

text \<open>The ids of the two listings, an id no listing has, and a string that is no ObjectId.\<close>

definition id_7 :: string where
  "id_7 = ''000000000000000000000007''"

definition id_8 :: string where
  "id_8 = ''000000000000000000000008''"

definition id_9 :: string where
  "id_9 = ''000000000000000000000009''"

definition id_malformed :: string where
  "id_malformed = ''abc''"

text \<open>The query of a request without parameters, as the query validator completes it.\<close>

definition no_filters :: car_query where
  "no_filters =
     \<lparr>q_page = Some 1, q_limit = Some 10, q_sort = Some ''-createdAt'', q_make = None,
      q_model = None, q_minPrice = None, q_maxPrice = None, q_minYear = None,
      q_maxYear = None, q_fuelType = None, q_transmission = None, q_bodyType = None,
      q_city = None, q_state = None, q_status = Some ''available''\<rparr>"

section \<open>Properties of the auth guard\<close>

lemma split_space_not_Nil: "split_space s \<noteq> []"
  by (induction s) (auto split: list.splits)

lemma split_space_single: "split_space s = [a] \<longleftrightarrow> s = a \<and> CHR '' '' \<notin> set a"
proof (induction s arbitrary: a)
  case Nil
  show ?case by auto
next
  case (Cons c cs)
  show ?case
  proof (cases "c = CHR '' ''")
    case True
    then show ?thesis by (auto simp: split_space_not_Nil)
  next
    case False
    obtain p ps where sp: "split_space cs = p # ps"
      using split_space_not_Nil [of cs] by (cases "split_space cs") auto
    show ?thesis
    proof (cases ps)
      case Nil
      with sp have "cs = p \<and> CHR '' '' \<notin> set p" using Cons.IH [of p] by simp
      with False sp Nil show ?thesis by auto
    next
      case (Cons q qs)
      have "\<not> (cs = drop 1 a \<and> CHR '' '' \<notin> set (drop 1 a))"
        using Cons.IH [of "drop 1 a"] sp Cons by auto
      then have "\<not> (c # cs = a \<and> CHR '' '' \<notin> set a)" by auto
      with False sp Cons show ?thesis by auto
    qed
  qed
qed

lemma split_space_pair:
  "split_space s = [a, b] \<longleftrightarrow>
     s = a @ CHR '' '' # b \<and> CHR '' '' \<notin> set a \<and> CHR '' '' \<notin> set b"
proof (induction s arbitrary: a)
  case Nil
  show ?case by auto
next
  case (Cons c cs)
  show ?case
  proof (cases "c = CHR '' ''")
    case True
    then show ?thesis by (cases a) (auto simp: split_space_single)
  next
    case False
    obtain p ps where sp: "split_space cs = p # ps"
      using split_space_not_Nil [of cs] by (cases "split_space cs") auto
    show ?thesis
    proof (cases a)
      case Nil
      with False sp show ?thesis by auto
    next
      case (Cons a0 as)
      have "split_space cs = [as, b] \<longleftrightarrow>
              cs = as @ CHR '' '' # b \<and> CHR '' '' \<notin> set as \<and> CHR '' '' \<notin> set b"
        by (rule Cons.IH)
      with False sp Cons show ?thesis by auto
    qed
  qed
qed

lemma extractTokenFromHeader_Some:
  "extractTokenFromHeader h = Some t \<longleftrightarrow>
     h = Some (''Bearer '' @ t) \<and> CHR '' '' \<notin> set t"
proof (cases h)
  case None
  then show ?thesis by (simp add: extractTokenFromHeader_def)
next
  case (Some s)
  have two: "length (split_space s) = 2 \<longleftrightarrow> (\<exists>a b. split_space s = [a, b])"
    by (cases "split_space s" rule: list.exhaust; simp; cases "tl (split_space s)"; simp;
        cases "tl (tl (split_space s))"; simp)
  show ?thesis
  proof
    assume e: "extractTokenFromHeader h = Some t"
    with Some have l: "length (split_space s) = 2" and b: "split_space s ! 0 = ''Bearer''"
      and t: "split_space s ! 1 = t"
      by (auto simp: extractTokenFromHeader_def Let_def split: if_splits)
    from l two obtain a b' where ab: "split_space s = [a, b']" by blast
    with b t have "split_space s = [''Bearer'', t]" by simp
    then have "s = ''Bearer'' @ CHR '' '' # t \<and> CHR '' '' \<notin> set t"
      using split_space_pair [of s "''Bearer''" t] by blast
    with Some show "h = Some (''Bearer '' @ t) \<and> CHR '' '' \<notin> set t" by simp
  next
    assume r: "h = Some (''Bearer '' @ t) \<and> CHR '' '' \<notin> set t"
    then have "split_space (''Bearer'' @ CHR '' '' # t) = [''Bearer'', t]"
      using split_space_pair [of "''Bearer'' @ CHR '' '' # t" "''Bearer''" t] by simp
    with r show "extractTokenFromHeader h = Some t"
      by (simp add: extractTokenFromHeader_def)
  qed
qed

lemma extractTokenFromHeader_None:
  "(\<nexists>t. h = Some (''Bearer '' @ t) \<and> CHR '' '' \<notin> set t) \<Longrightarrow> extractTokenFromHeader h = None"
  using extractTokenFromHeader_Some [of h] by (cases "extractTokenFromHeader h") auto

lemma optionalAuth_proceeds: "\<exists>u. optionalAuth jv fu h = Next u"
  by (simp add: optionalAuth_def split: option.splits sum.splits)

lemma authenticate_fails_optionalAuth:
  "authenticate jv fu h = Respond st m \<Longrightarrow> st = 401 \<and> optionalAuth jv fu h = Next None"
  by (auto simp: authenticate_def optionalAuth_def split: option.splits sum.splits if_splits)

text \<open>
  C9. A request with no Authorization header, or with a header that is not
  \<^verbatim>\<open>Bearer <token>\<close> (the word, one space, a token without spaces), is answered by
  \<^verbatim>\<open>authenticate\<close> with 401 and the message that no token was provided. \<^verbatim>\<open>optionalAuth\<close>
  never answers the request itself: it always calls \<^verbatim>\<open>next()\<close>, and it binds no user on
  such a request, when verification throws, when the user lookup throws, when no user is
  found and when the user is inactive; these are all the requests \<^verbatim>\<open>authenticate\<close> rejects.
\<close>

theorem auth_guard_no_token:
  "((\<nexists>t. h = Some (''Bearer '' @ t) \<and> CHR '' '' \<notin> set t) \<longrightarrow>
       authenticate jv fu h = Respond 401 ''Access denied. No token provided.''
       \<and> optionalAuth jv fu h = Next None)
   \<and> (\<exists>u. optionalAuth jv fu h = Next u)
   \<and> (\<forall>st m. authenticate jv fu h = Respond st m \<longrightarrow>
         st = 401 \<and> optionalAuth jv fu h = Next None)
   \<and> (\<forall>t. extractTokenFromHeader h = Some t \<longrightarrow>
         (\<forall>m. verifyToken jv t = Inl m \<longrightarrow> optionalAuth jv fu h = Next None)
         \<and> (\<forall>d. verifyToken jv t = Inr d \<longrightarrow>
               (\<forall>m. fu (decoded_id d) = Inl m \<longrightarrow> optionalAuth jv fu h = Next None)
               \<and> (fu (decoded_id d) = Inr None \<longrightarrow> optionalAuth jv fu h = Next None)
               \<and> (\<forall>u. fu (decoded_id d) = Inr (Some u) \<and> \<not> user_isActive u \<longrightarrow>
                     optionalAuth jv fu h = Next None)))"
proof (intro conjI)
  show "(\<nexists>t. h = Some (''Bearer '' @ t) \<and> CHR '' '' \<notin> set t) \<longrightarrow>
          authenticate jv fu h = Respond 401 ''Access denied. No token provided.''
          \<and> optionalAuth jv fu h = Next None"
  proof
    assume "\<nexists>t. h = Some (''Bearer '' @ t) \<and> CHR '' '' \<notin> set t"
    then have "extractTokenFromHeader h = None" by (rule extractTokenFromHeader_None)
    then show "authenticate jv fu h = Respond 401 ''Access denied. No token provided.''
                 \<and> optionalAuth jv fu h = Next None"
      by (simp add: authenticate_def optionalAuth_def)
  qed
next
  show "\<exists>u. optionalAuth jv fu h = Next u" by (rule optionalAuth_proceeds)
next
  show "\<forall>st m. authenticate jv fu h = Respond st m \<longrightarrow>
          st = 401 \<and> optionalAuth jv fu h = Next None"
    using authenticate_fails_optionalAuth by blast
next
  show "\<forall>t. extractTokenFromHeader h = Some t \<longrightarrow>
         (\<forall>m. verifyToken jv t = Inl m \<longrightarrow> optionalAuth jv fu h = Next None)
         \<and> (\<forall>d. verifyToken jv t = Inr d \<longrightarrow>
               (\<forall>m. fu (decoded_id d) = Inl m \<longrightarrow> optionalAuth jv fu h = Next None)
               \<and> (fu (decoded_id d) = Inr None \<longrightarrow> optionalAuth jv fu h = Next None)
               \<and> (\<forall>u. fu (decoded_id d) = Inr (Some u) \<and> \<not> user_isActive u \<longrightarrow>
                     optionalAuth jv fu h = Next None))"
    by (auto simp: optionalAuth_def)
qed

theorem auth_guard_no_token_witness:
  "authenticate (\<lambda>t. Inl JsonWebTokenError) (\<lambda>i. Inr None) (Some ''Bearer a b'')
     = Respond 401 ''Access denied. No token provided.''
   \<and> optionalAuth (\<lambda>t. Inl JsonWebTokenError) (\<lambda>i. Inr None) (Some ''Bearer a b'') = Next None
   \<and> authenticate (\<lambda>t. Inl JsonWebTokenError) (\<lambda>i. Inr None) None
     = Respond 401 ''Access denied. No token provided.''"
proof -
  have a: "\<nexists>t. Some ''Bearer a b'' = Some (''Bearer '' @ t) \<and> CHR '' '' \<notin> set t"
    by auto
  have b: "\<nexists>t. (None :: string option) = Some (''Bearer '' @ t) \<and> CHR '' '' \<notin> set t"
    by simp
  show ?thesis
    using a b
      auth_guard_no_token [of "Some ''Bearer a b''" "\<lambda>t. Inl JsonWebTokenError" "\<lambda>i. Inr None"]
      auth_guard_no_token [of None "\<lambda>t. Inl JsonWebTokenError" "\<lambda>i. Inr None"]
    by blast
qed

section \<open>Properties of the store\<close>

lemma findById_Some_id: "findById store i = Some c \<Longrightarrow> car_id c = i \<and> c \<in> set store"
  by (auto simp: findById_def find_Some_iff)

lemma findById_None_iff: "findById store i = None \<longleftrightarrow> i \<notin> set (map car_id store)"
  by (auto simp: findById_def find_None_iff)

lemma findById_append_fresh:
  "i \<notin> set (map car_id store) \<Longrightarrow> car_id doc = i \<Longrightarrow> findById (store @ [doc]) i = Some doc"
  by (induction store) (auto simp: findById_def)

lemma findById_update_same:
  "findById store i = Some c \<Longrightarrow> car_id (f c) = i \<Longrightarrow>
     findById (findByIdAndUpdate i f store) i = Some (f c)"
  by (induction store) (auto simp: findById_def split: if_splits)

lemma findById_update_other:
  "j \<noteq> i \<Longrightarrow> (\<And>c. car_id (f c) = car_id c) \<Longrightarrow>
     findById (findByIdAndUpdate i f store) j = findById store j"
  by (induction store) (auto simp: findById_def)

lemma findByIdAndUpdate_absent:
  "findById store i = None \<Longrightarrow> findByIdAndUpdate i f store = store"
  by (induction store) (auto simp: findById_def split: if_splits)

lemma length_findByIdAndUpdate: "length (findByIdAndUpdate i f store) = length store"
  by (induction store) auto

lemma map_car_id_findByIdAndUpdate:
  "(\<And>c. car_id (f c) = car_id c) \<Longrightarrow>
     map car_id (findByIdAndUpdate i f store) = map car_id store"
  by (induction store) auto

lemma findById_distinct:
  "distinct (map car_id store) \<Longrightarrow> c \<in> set store \<Longrightarrow> findById store (car_id c) = Some c"
  by (induction store) (auto simp: findById_def)

section \<open>Properties of the listing lifecycle\<close>

lemma Car_create_Inr:
  "Car_create rt now oid carData store = Inr (doc, store') \<Longrightarrow>
     store' = store @ [doc] \<and> car_id doc = oid \<and> oid \<notin> set (map car_id store)
     \<and> seller doc = cast_seller (b_seller carData)
     \<and> car_make doc = capitalize (trim (b_make carData))
     \<and> car_model doc = capitalize (trim (b_model carData))
     \<and> isActive doc \<and> viewCount doc = 0"
  by (auto simp: Car_create_def Let_def cast_body_def split: if_splits)

text \<open>The ids of a collection stay unique under the four handlers that write.\<close>

lemma distinct_ids_preserved:
  assumes "distinct (map car_id store)"
  shows "distinct (map car_id (snd (createCar rt now oid u body store)))"
    and "distinct (map car_id (snd (getCar rt now s store)))"
    and "distinct (map car_id (snd (updateCar rt now u s body store)))"
    and "distinct (map car_id (snd (deleteCar rt now u s store)))"
proof -
  show "distinct (map car_id (snd (createCar rt now oid u body store)))"
    using assms by (auto simp: createCar_def Car_create_def Let_def split: sum.splits if_splits)
  show "distinct (map car_id (snd (getCar rt now s store)))"
    using assms by (simp add: getCar_def map_car_id_findByIdAndUpdate split: option.splits)
  show "distinct (map car_id (snd (updateCar rt now u s body store)))"
    using assms
    by (simp add: updateCar_def Let_def apply_body_def map_car_id_findByIdAndUpdate
        split: option.splits)
  show "distinct (map car_id (snd (deleteCar rt now u s store)))"
    using assms by (simp add: deleteCar_def map_car_id_findByIdAndUpdate split: option.splits)
qed

text \<open>
  C1. When \<^verbatim>\<open>createCar\<close> succeeds for the authenticated user \<open>u\<close>, the listing that is
  returned and stored carries \<open>u\<close>'s email as the seller's email, and the whole outcome is
  the same whatever seller email \<open>e\<close> (or none) the submitted body had. The schema's setters
  lowercase and trim the value on the way; a user's email is stored lowercase (the spec's
  data model of the user), so they leave it as it is.
\<close>

theorem createCar_seller_email:
  assumes ok: "createCar rt now oid u body store = (Inr doc, store')"
    and norm: "toLowerCase (trim (email u)) = email u"
  shows "seller_email (seller doc) = Some (email u)
         \<and> store' = store @ [doc]
         \<and> findById store' (car_id doc) = Some doc
         \<and> createCar rt now oid u (body\<lparr>b_seller := (b_seller body)\<lparr>seller_email := e\<rparr>\<rparr>) store
             = (Inr doc, store')"
proof -
  let ?carData = "body\<lparr>b_seller := (b_seller body)\<lparr>seller_email := Some (email u)\<rparr>\<rparr>"
  from ok have cr: "Car_create rt now oid ?carData store = Inr (doc, store')"
    by (auto simp: createCar_def Let_def split: sum.splits)
  note facts = Car_create_Inr [OF cr]
  from facts norm have 1: "seller_email (seller doc) = Some (email u)"
    by (simp add: cast_seller_def)
  from facts have 2: "store' = store @ [doc]" by simp
  from facts have 3: "findById store' (car_id doc) = Some doc"
    using findById_append_fresh [of oid store doc] by simp
  have "createCar rt now oid u (body\<lparr>b_seller := (b_seller body)\<lparr>seller_email := e\<rparr>\<rparr>) store
          = createCar rt now oid u body store"
    by (simp add: createCar_def)
  with ok 1 2 3 show ?thesis by simp
qed

theorem createCar_seller_email_witness:
  "\<exists>doc store'. createCar example_runtime 300 9 alice honda_body [honda] = (Inr doc, store')
      \<and> seller_email (b_seller honda_body) = Some ''mallory@example.com''
      \<and> seller_email (seller doc) = Some ''alice@example.com''
      \<and> findById store' 9 = Some doc"
proof -
  have n: "toLowerCase (trim (email alice)) = email alice"
    by code_simp
  have "case createCar example_runtime 300 9 alice honda_body [honda] of
          (Inr d, s) \<Rightarrow> car_id d = 9 | (Inl e, s) \<Rightarrow> False"
    by code_simp
  then obtain doc store' where
    ok: "createCar example_runtime 300 9 alice honda_body [honda] = (Inr doc, store')"
    and id: "car_id doc = 9"
    by (auto split: prod.splits sum.splits)
  have e: "email alice = ''alice@example.com''" by (simp add: alice_def)
  have "seller_email (seller doc) = Some (email alice) \<and> findById store' (car_id doc) = Some doc"
    using createCar_seller_email [OF ok n, of None] by blast
  with ok id e show ?thesis by (simp add: honda_body_def)
qed

lemma example_ids:
  "castObjectId example_runtime id_7 = Some 7"
  "castObjectId example_runtime id_8 = Some 8"
  "castObjectId example_runtime id_9 = Some 9"
  "castObjectId example_runtime id_malformed = None"
  by (simp_all add: example_runtime_def hex24_def id_7_def id_8_def id_9_def id_malformed_def
      hex_digit_def upt_rec)

lemma getCar_cast:
  "castObjectId rt s = Some i \<Longrightarrow>
     getCar rt now s store =
       (case findById store i of
          None \<Rightarrow> (Inl NotFound, store)
        | Some c \<Rightarrow>
            if \<not> isActive c then (Inl NotFound, store)
            else (Inr c,
                  findByIdAndUpdate i
                    (\<lambda>d. d\<lparr>viewCount := viewCount d + 1, updatedAt := now\<rparr>) store))"
  by (simp add: getCar_def)

text \<open>
  C5, as the claim states it, fails in two places. First the frame: the schema has
  \<^verbatim>\<open>timestamps: true\<close>, so the increment through \<^verbatim>\<open>findByIdAndUpdate\<close> also sets \<open>updatedAt\<close>;
  viewing the listing \<open>honda\<close> at time 300 stores view count 1 and \<open>updatedAt\<close> 300, which
  is not \<open>honda\<close> with only the view count changed. Second the id: for \<^verbatim>\<open>abc\<close>, which is no
  ObjectId and so the id of no record, \<^verbatim>\<open>getCar\<close> does not answer NotFound; the lookup
  throws a CastError, which goes to \<^verbatim>\<open>next\<close>.
\<close>

theorem getCar_frame_counterexample:
  "findById [honda] 7 = Some honda \<and> isActive honda
   \<and> fst (getCar example_runtime 300 id_7 [honda]) = Inr honda
   \<and> findById (snd (getCar example_runtime 300 id_7 [honda])) 7
        = Some (honda\<lparr>viewCount := 1, updatedAt := 300\<rparr>)
   \<and> honda\<lparr>viewCount := 1, updatedAt := 300\<rparr> \<noteq> honda\<lparr>viewCount := viewCount honda + 1\<rparr>
   \<and> id_malformed = ''abc''
   \<and> fst (getCar example_runtime 300 id_malformed [honda]) = Inl CastError
   \<and> fst (getCar example_runtime 300 id_malformed [honda]) \<noteq> Inl NotFound"
proof -
  have a: "getCar example_runtime 300 id_7 [honda]
             = (Inr honda, [honda\<lparr>viewCount := 1, updatedAt := 300\<rparr>])"
    unfolding getCar_cast [OF example_ids(1)] by (simp add: findById_def honda_def)
  have b: "getCar example_runtime 300 id_malformed [honda] = (Inl CastError, [honda])"
    by (simp add: getCar_def example_ids(4))
  have c: "findById [honda\<lparr>viewCount := 1, updatedAt := 300\<rparr>] 7
             = Some (honda\<lparr>viewCount := 1, updatedAt := 300\<rparr>)"
    by (simp add: findById_def honda_def)
  have d: "findById [honda] 7 = Some honda \<and> isActive honda"
    by (simp add: findById_def honda_def)
  have e: "honda\<lparr>viewCount := 1, updatedAt := 300\<rparr> \<noteq> honda\<lparr>viewCount := viewCount honda + 1\<rparr>"
    by (simp add: honda_def)
  have f: "id_malformed = ''abc''" by (simp add: id_malformed_def)
  show ?thesis unfolding a b using c d e f by simp
qed

text \<open>
  C5, amended. When the id is an ObjectId, \<^verbatim>\<open>getCar\<close> answers NotFound exactly when no
  document has the id or the document is inactive, and then leaves the collection as it
  is. When the id is not an ObjectId, \<^verbatim>\<open>getCar\<close> hands the CastError of the lookup on and
  leaves the collection as it is; it answers NotFound in no other case. On success it
  returns the document as read before the increment, and the stored document afterwards
  is that document with the view count one higher and \<open>updatedAt\<close> set to the time of the
  call; nothing else of it changes, and no other document changes.
\<close>

theorem getCar_view_increment:
  "(castObjectId rt s = None \<longrightarrow> getCar rt now s store = (Inl CastError, store))
   \<and> (fst (getCar rt now s store) = Inl NotFound \<longleftrightarrow>
        (\<exists>i. castObjectId rt s = Some i
           \<and> (findById store i = None \<or> (\<exists>c. findById store i = Some c \<and> \<not> isActive c))))
   \<and> (fst (getCar rt now s store) = Inl NotFound \<longrightarrow> snd (getCar rt now s store) = store)
   \<and> (\<forall>i c. castObjectId rt s = Some i \<and> findById store i = Some c \<and> isActive c \<longrightarrow>
         fst (getCar rt now s store) = Inr c
         \<and> findById (snd (getCar rt now s store)) i
             = Some (c\<lparr>viewCount := viewCount c + 1, updatedAt := now\<rparr>))
   \<and> (\<forall>j. castObjectId rt s \<noteq> Some j \<longrightarrow>
         findById (snd (getCar rt now s store)) j = findById store j)"
proof (intro conjI allI impI)
  assume "castObjectId rt s = None"
  then show "getCar rt now s store = (Inl CastError, store)" by (simp add: getCar_def)
next
  show "fst (getCar rt now s store) = Inl NotFound \<longleftrightarrow>
        (\<exists>i. castObjectId rt s = Some i
           \<and> (findById store i = None \<or> (\<exists>c. findById store i = Some c \<and> \<not> isActive c)))"
    by (cases "castObjectId rt s") (auto simp: getCar_def split: option.splits)
next
  assume "fst (getCar rt now s store) = Inl NotFound"
  then show "snd (getCar rt now s store) = store"
    by (auto simp: getCar_def split: option.splits if_splits)
next
  fix i c assume c: "castObjectId rt s = Some i \<and> findById store i = Some c \<and> isActive c"
  then show "fst (getCar rt now s store) = Inr c" by (simp add: getCar_def)
  from c have "car_id c = i" using findById_Some_id by blast
  with c show "findById (snd (getCar rt now s store)) i
             = Some (c\<lparr>viewCount := viewCount c + 1, updatedAt := now\<rparr>)"
    by (simp add: getCar_def findById_update_same)
next
  fix j assume "castObjectId rt s \<noteq> Some j"
  then show "findById (snd (getCar rt now s store)) j = findById store j"
    by (auto simp: getCar_def findById_update_other split: option.splits)
qed

theorem getCar_view_increment_witness:
  "fst (getCar example_runtime 300 id_8 [honda, swift]) = Inr swift
   \<and> viewCount swift = 3
   \<and> findById (snd (getCar example_runtime 300 id_8 [honda, swift])) 8
        = Some (swift\<lparr>viewCount := 4, updatedAt := 300\<rparr>)
   \<and> findById (snd (getCar example_runtime 300 id_8 [honda, swift])) 7 = Some honda
   \<and> fst (getCar example_runtime 300 id_9 [honda, swift]) = Inl NotFound
   \<and> getCar example_runtime 300 id_malformed [honda, swift] = (Inl CastError, [honda, swift])"
proof -
  have a: "findById [honda, swift] 8 = Some swift \<and> isActive swift"
    by (simp add: findById_def honda_def swift_def)
  have b: "findById [honda, swift] 9 = None"
    by (simp add: findById_def honda_def swift_def)
  have c: "findById [honda, swift] 7 = Some honda"
    by (simp add: findById_def honda_def swift_def)
  have v: "viewCount swift = 3" by (simp add: swift_def)
  show ?thesis
    using a b c v example_ids
      getCar_view_increment [of example_runtime id_8 300 "[honda, swift]"]
      getCar_view_increment [of example_runtime id_9 300 "[honda, swift]"]
      getCar_view_increment [of example_runtime id_malformed 300 "[honda, swift]"]
    by auto
qed

text \<open>
  C6, as the claim states it, fails for an id that is no ObjectId: no record exists for
  \<^verbatim>\<open>abc\<close>, and \<^verbatim>\<open>updateCar\<close> and \<^verbatim>\<open>deleteCar\<close> do not answer NotFound; the lookup throws a
  CastError, which goes to \<^verbatim>\<open>next\<close>.
\<close>

theorem update_delete_cast_counterexample:
  "id_malformed = ''abc''
   \<and> castObjectId example_runtime id_malformed = None
   \<and> fst (updateCar example_runtime 300 bob id_malformed honda_body [honda]) = Inl CastError
   \<and> fst (updateCar example_runtime 300 bob id_malformed honda_body [honda]) \<noteq> Inl NotFound
   \<and> fst (deleteCar example_runtime 300 bob id_malformed [honda]) = Inl CastError
   \<and> fst (deleteCar example_runtime 300 bob id_malformed [honda]) \<noteq> Inl NotFound"
proof -
  have a: "updateCar example_runtime 300 bob id_malformed honda_body [honda] = (Inl CastError, [honda])"
    by (simp add: updateCar_def example_ids(4))
  have b: "deleteCar example_runtime 300 bob id_malformed [honda] = (Inl CastError, [honda])"
    by (simp add: deleteCar_def example_ids(4))
  have f: "id_malformed = ''abc''" by (simp add: id_malformed_def)
  show ?thesis unfolding a b using f example_ids(4) by simp
qed

text \<open>
  C6, amended. \<^verbatim>\<open>updateCar\<close> and \<^verbatim>\<open>deleteCar\<close> answer NotFound exactly when the id is an
  ObjectId that no document has, whatever the body and whether or not the document is
  active; when the id is not an ObjectId they hand the CastError of the lookup on. In both
  cases nothing is written. Neither handler reads \<^verbatim>\<open>req.user\<close>: with any two users the
  answer and the collection afterwards are the same, so a user who is not the seller is
  not turned away.
\<close>

theorem update_delete_not_found:
  "(fst (updateCar rt now u s body store) = Inl NotFound \<longleftrightarrow>
      (\<exists>i. castObjectId rt s = Some i \<and> findById store i = None))
   \<and> (fst (deleteCar rt now u s store) = Inl NotFound \<longleftrightarrow>
        (\<exists>i. castObjectId rt s = Some i \<and> findById store i = None))
   \<and> (castObjectId rt s = None \<longrightarrow>
         updateCar rt now u s body store = (Inl CastError, store)
         \<and> deleteCar rt now u s store = (Inl CastError, store))
   \<and> (fst (updateCar rt now u s body store) = Inl NotFound \<longrightarrow>
         snd (updateCar rt now u s body store) = store)
   \<and> (fst (deleteCar rt now u s store) = Inl NotFound \<longrightarrow>
         snd (deleteCar rt now u s store) = store)
   \<and> updateCar rt now u' s body store = updateCar rt now u s body store
   \<and> deleteCar rt now u' s store = deleteCar rt now u s store"
  by (cases "castObjectId rt s")
    (auto simp: updateCar_def deleteCar_def Let_def split: option.splits)

theorem update_delete_not_found_witness:
  "fst (deleteCar example_runtime 300 bob id_7 [honda]) = Inr ()
   \<and> seller_email (seller honda) \<noteq> Some (email bob)
   \<and> fst (deleteCar example_runtime 300 bob id_9 [honda]) = Inl NotFound
   \<and> fst (updateCar example_runtime 300 bob id_9 honda_body [honda]) = Inl NotFound
   \<and> updateCar example_runtime 300 bob id_malformed honda_body [honda] = (Inl CastError, [honda])
   \<and> updateCar example_runtime 300 bob id_7 honda_body [honda]
       = updateCar example_runtime 300 alice id_7 honda_body [honda]"
proof -
  have a: "findById [honda] 7 = Some honda"
    "findById [honda] 9 = None"
    by (simp_all add: findById_def honda_def)
  have d: "fst (deleteCar example_runtime 300 bob id_7 [honda]) = Inr ()"
    by (simp add: deleteCar_def example_ids(1) findById_def honda_def)
  have e: "seller_email (seller honda) \<noteq> Some (email bob)"
    by (simp add: honda_def bob_def)
  show ?thesis
    using a d e example_ids
      update_delete_not_found [of example_runtime 300 bob id_9 honda_body "[honda]" alice]
      update_delete_not_found [of example_runtime 300 bob id_malformed honda_body "[honda]" alice]
      update_delete_not_found [of example_runtime 300 alice id_7 honda_body "[honda]" bob]
    by auto
qed

text \<open>
  C7 holds on creation and fails on update. The \<^verbatim>\<open>pre('save')\<close> hook runs in \<^verbatim>\<open>Car.create\<close>
  and not in \<^verbatim>\<open>findByIdAndUpdate\<close>: updating the listing 7 with the make \<^verbatim>\<open>hONDA\<close> and the
  model \<^verbatim>\<open>city\<close> stores them as they are, while creating a listing from the same body
  stores \<^verbatim>\<open>Honda\<close> and \<^verbatim>\<open>City\<close>.
\<close>

theorem updateCar_keeps_case:
  "(case updateCar example_runtime 300 alice id_7 honda_body [honda] of
      (Inr c', store') \<Rightarrow> car_make c' = ''hONDA'' \<and> car_model c' = ''city''
                         \<and> map car_make store' = [''hONDA'']
    | (Inl e, store') \<Rightarrow> False)
   \<and> capitalize ''hONDA'' = ''Honda''
   \<and> (case createCar example_runtime 300 9 alice honda_body [] of
        (Inr c', store') \<Rightarrow> car_make c' = ''Honda'' \<and> car_model c' = ''City''
      | (Inl e, store') \<Rightarrow> False)"
  by code_simp

text \<open>
  C10. An update of an existing listing, named by its id, whose body passes the validators
  succeeds for every user, and when the body has a seller email the listing returned and stored has
  that email as the seller's: \<^verbatim>\<open>updateCar\<close> does not put the caller's email there. The body's
  email is in the form the request validator leaves it in (trimmed, lowercase), which the
  schema's setters keep.
\<close>

theorem updateCar_seller_email:
  assumes i: "castObjectId rt s = Some i"
    and f: "findById store i = Some c"
    and v: "body_valid rt (cast_body body)"
    and e: "seller_email (b_seller body) = Some e"
    and n: "toLowerCase (trim e) = e"
  shows "\<exists>c' store'. updateCar rt now u s body store = (Inr c', store')
           \<and> seller_email (seller c') = Some e
           \<and> findById store' i = Some c'"
proof -
  from f have id: "car_id c = i" using findById_Some_id by blast
  let ?b = "cast_body body"
  have s: "seller_email (b_seller ?b) = Some e"
    using e n by (simp add: cast_body_def cast_seller_def)
  have "updateCar rt now u s body store
          = (Inr (apply_body now ?b c), findByIdAndUpdate i (apply_body now ?b) store)"
    using i f v by (simp add: updateCar_def Let_def)
  moreover have "seller_email (seller (apply_body now ?b c)) = Some e"
    using s by (simp add: apply_body_def)
  moreover have "findById (findByIdAndUpdate i (apply_body now ?b) store) i
                   = Some (apply_body now ?b c)"
    using f id by (simp add: findById_update_same apply_body_def)
  ultimately show ?thesis by blast
qed

theorem updateCar_seller_email_witness:
  "\<exists>c' store'. updateCar example_runtime 300 bob id_7 honda_body [honda] = (Inr c', store')
      \<and> seller_email (seller honda) = Some ''alice@example.com''
      \<and> email bob = ''bob@example.com''
      \<and> seller_email (seller c') = Some ''mallory@example.com''
      \<and> findById store' 7 = Some c'"
proof -
  have f: "findById [honda] 7 = Some honda" by (simp add: findById_def honda_def)
  have v: "body_valid example_runtime (cast_body honda_body)" by code_simp
  have e: "seller_email (b_seller honda_body) = Some ''mallory@example.com''"
    by (simp add: honda_body_def)
  have n: "toLowerCase (trim ''mallory@example.com'') = ''mallory@example.com''" by code_simp
  have h: "seller_email (seller honda) = Some ''alice@example.com''" by (simp add: honda_def)
  have b: "email bob = ''bob@example.com''" by (simp add: bob_def)
  show ?thesis
    using updateCar_seller_email [OF example_ids(1) f v e n, of 300 bob] h b by blast
qed

section \<open>Properties of the query compiler\<close>

lemma less_ceiling_div:
  assumes "0 < (n::int)"
  shows "p < \<lceil>real t / real_of_int n\<rceil> \<longleftrightarrow> p * n < int t"
proof -
  have "p < \<lceil>real t / real_of_int n\<rceil> \<longleftrightarrow> real_of_int p < real t / real_of_int n"
    by (rule less_ceiling_iff)
  also have "\<dots> \<longleftrightarrow> real_of_int p * real_of_int n < real t"
    using assms by (simp add: pos_less_divide_eq)
  also have "\<dots> \<longleftrightarrow> real_of_int (p * n) < real_of_int (int t)" by simp
  also have "\<dots> \<longleftrightarrow> p * n < int t" by (rule of_int_less_iff)
  finally show ?thesis .
qed

lemma build_filter_window:
  "build_filter (q\<lparr>q_page := a, q_limit := b\<rparr>) = build_filter q"
  by (simp add: build_filter_def)

lemma getCars_total:
  "getCars rt q store = Inr r \<Longrightarrow> pg_total r = length (filter (matches rt (build_filter q)) store)"
  by (auto simp: getCars_def Let_def split: if_splits)

text \<open>
  C3. With page \<open>P\<close> at least 1 and limit \<open>N\<close> from 1 to 100 (given or by default), text
  parameters that are regular expressions, and \<open>T\<close> the number of documents the filter
  matches, \<^verbatim>\<open>getCars\<close> succeeds; it returns the \<open>N\<close>
  sorted matches after the first \<open>(P - 1) * N\<close>, so at most \<open>N\<close>; the total is \<open>T\<close>, the
  number of pages is the ceiling of \<open>T / N\<close>, \<open>hasNext\<close> holds exactly when \<open>P * N < T\<close> and
  \<open>hasPrev\<close> exactly when \<open>P > 1\<close>. The total is the same for every other page and limit.
\<close>

theorem getCars_pagination:
  assumes P: "P = (case q_page q of None \<Rightarrow> 1 | Some p \<Rightarrow> p)"
    and N: "N = (case q_limit q of None \<Rightarrow> 10 | Some l \<Rightarrow> l)"
    and T: "T = length (filter (matches rt (build_filter q)) store)"
    and P1: "1 \<le> P" and N1: "1 \<le> N" and N100: "N \<le> 100"
    and ok: "patterns_ok rt q"
  shows "\<exists>r. getCars rt q store = Inr r
           \<and> count r = length (data r) \<and> int (count r) \<le> N
           \<and> data r = take (nat N) (drop (nat ((P - 1) * N))
                         (sort_cars (case q_sort q of None \<Rightarrow> ''-createdAt'' | Some s \<Rightarrow> s)
                            (filter (matches rt (build_filter q)) store)))
           \<and> pg_total r = T
           \<and> totalPages r = Num \<lceil>real T / real_of_int N\<rceil>
           \<and> (hasNext r \<longleftrightarrow> P * N < int T)
           \<and> (hasPrev r \<longleftrightarrow> 1 < P)
           \<and> (\<forall>P' N' r'. getCars rt (q\<lparr>q_page := P', q_limit := N'\<rparr>) store = Inr r'
                  \<longrightarrow> pg_total r' = T)"
proof -
  have skip: "\<not> (P - 1) * N < 0" using P1 N1 by (simp add: mult_less_0_iff)
  have N0: "N \<noteq> 0" "0 < N" "\<bar>N\<bar> = N" using N1 by simp_all
  let ?xs = "sort_cars (case q_sort q of None \<Rightarrow> ''-createdAt'' | Some s \<Rightarrow> s)
               (filter (matches rt (build_filter q)) store)"
  let ?r = "\<lparr>count = length (take (nat N) (drop (nat ((P - 1) * N)) ?xs)),
             pg_page = P, pg_limit = N, pg_total = T,
             totalPages = Num \<lceil>real T / real_of_int N\<rceil>,
             hasNext = (P < \<lceil>real T / real_of_int N\<rceil>), hasPrev = (1 < P),
             data = take (nat N) (drop (nat ((P - 1) * N)) ?xs)\<rparr>"
  have r: "getCars rt q store = Inr ?r"
    using skip N0 ok unfolding getCars_def Let_def P [symmetric] N [symmetric] T [symmetric]
    by (simp add: db_limit_def ceil_div_def js_less_def)
  have le: "int (count ?r) \<le> N" using N0 by simp
  have nx: "hasNext ?r \<longleftrightarrow> P * N < int T"
    using less_ceiling_div [OF N0(2), of P T] by simp
  have win: "\<forall>P' N' r'. getCars rt (q\<lparr>q_page := P', q_limit := N'\<rparr>) store = Inr r'
                  \<longrightarrow> pg_total r' = T"
    using getCars_total [of rt "q\<lparr>q_page := _, q_limit := _\<rparr>" store] T
    by (simp add: build_filter_window)
  show ?thesis
    using r le nx win by (intro exI [of _ ?r]) simp
qed

theorem getCars_pagination_witness:
  "\<exists>r. getCars example_runtime (no_filters\<lparr>q_page := Some 2, q_limit := Some 1\<rparr>) [honda, swift]
          = Inr r
        \<and> count r \<le> 1 \<and> data r = [honda] \<and> pg_total r = 2 \<and> totalPages r = Num 2
        \<and> \<not> hasNext r \<and> hasPrev r"
proof -
  let ?q = "no_filters\<lparr>q_page := Some 2, q_limit := Some 1\<rparr>"
  have P: "(2::int) = (case q_page ?q of None \<Rightarrow> 1 | Some p \<Rightarrow> p)" by simp
  have N: "(1::int) = (case q_limit ?q of None \<Rightarrow> 10 | Some l \<Rightarrow> l)" by simp
  have T: "2 = length (filter (matches example_runtime (build_filter ?q)) [honda, swift])"
    by code_simp
  have s: "take (nat 1) (drop (nat ((2 - 1) * 1))
             (sort_cars (case q_sort ?q of None \<Rightarrow> ''-createdAt'' | Some s \<Rightarrow> s)
                (filter (matches example_runtime (build_filter ?q)) [honda, swift]))) = [honda]"
    by code_simp
  have c: "\<lceil>real 2 / real_of_int 1\<rceil> = 2" by simp
  have ok: "patterns_ok example_runtime ?q" by code_simp
  show ?thesis
    using getCars_pagination [OF P N T _ _ _ ok] s c by auto
qed

lemma matches_build_filter:
  "matches rt (build_filter q) d \<Longrightarrow>
     isActive d \<and> status d = (case q_status q of None \<Rightarrow> ''available'' | Some s \<Rightarrow> s)"
  by (simp add: matches_def build_filter_def)

lemma filter_matches_active:
  "filter (matches rt (build_filter q)) (filter isActive store)
     = filter (matches rt (build_filter q)) store"
  using matches_build_filter [of rt q] by (auto simp: filter_filter intro: filter_cong)

lemma stats_match_active: "stats_match (filter isActive store) = stats_match store"
  by (auto simp: stats_match_def filter_filter intro: filter_cong)

lemma set_db_limit: "set (db_limit n xs) \<subseteq> set xs"
  by (auto simp: db_limit_def dest: in_set_takeD)

lemma set_sort_cars: "set (sort_cars s xs) = set xs"
  by (simp add: sort_cars_def)

lemma getCars_data_matches:
  assumes a: "getCars rt q store = Inr r" and d: "d \<in> set (data r)"
  shows "d \<in> set store \<and> matches rt (build_filter q) d"
proof -
  obtain n k s where
    "data r = db_limit n (drop k (sort_cars s (filter (matches rt (build_filter q)) store)))"
    using a by (auto simp: getCars_def Let_def split: if_splits)
  with d have "d \<in> set (drop k (sort_cars s (filter (matches rt (build_filter q)) store)))"
    using set_db_limit by fastforce
  then have "d \<in> set (sort_cars s (filter (matches rt (build_filter q)) store))"
    by (rule in_set_dropD)
  then show ?thesis by (simp add: set_sort_cars)
qed

lemma deleteCar_soft:
  assumes "castObjectId rt s = Some i" and "findById store i = Some c"
  shows "fst (deleteCar rt now u s store) = Inr ()
         \<and> findById (snd (deleteCar rt now u s store)) i
             = Some (c\<lparr>isActive := False, updatedAt := now\<rparr>)"
proof -
  from assms have "car_id c = i" using findById_Some_id by blast
  with assms show ?thesis by (simp add: deleteCar_def findById_update_same)
qed

text \<open>
  C2. Let \<open>c\<close> be an inactive listing of a collection with unique ids. The filter of
  \<^verbatim>\<open>getCars\<close> always has \<^verbatim>\<open>isActive: true\<close> and the resolved status, so \<open>c\<close> does not match it, is
  in no page, and the search answers as it would on the collection without its inactive
  listings. The statistics do not select \<open>c\<close> and are those of the collection without its
  inactive listings. \<^verbatim>\<open>getCar\<close> on the id of \<open>c\<close> answers NotFound and leaves the collection as
  it is, where \<^verbatim>\<open>findById\<close> still returns \<open>c\<close>.
\<close>

theorem inactive_listings_hidden:
  assumes c: "c \<in> set store" and inactive: "\<not> isActive c"
    and ids: "distinct (map car_id store)"
  shows "f_isActive (build_filter q)
         \<and> f_status (build_filter q) = (case q_status q of None \<Rightarrow> ''available'' | Some s \<Rightarrow> s)
         \<and> \<not> matches rt (build_filter q) c
         \<and> (\<forall>r. getCars rt q store = Inr r \<longrightarrow> c \<notin> set (data r))
         \<and> getCars rt q store = getCars rt q (filter isActive store)
         \<and> c \<notin> set (stats_match store)
         \<and> getCarStats rt store = getCarStats rt (filter isActive store)
         \<and> (\<forall>s. castObjectId rt s = Some (car_id c) \<longrightarrow>
               getCar rt now s store = (Inl NotFound, store))
         \<and> findById store (car_id c) = Some c"
proof -
  have 1: "f_isActive (build_filter q)
         \<and> f_status (build_filter q) = (case q_status q of None \<Rightarrow> ''available'' | Some s \<Rightarrow> s)"
    by (simp add: build_filter_def)
  have 2: "\<not> matches rt (build_filter q) c"
    using inactive matches_build_filter by blast
  have 3: "\<forall>r. getCars rt q store = Inr r \<longrightarrow> c \<notin> set (data r)"
    using 2 getCars_data_matches by blast
  have 4: "getCars rt q store = getCars rt q (filter isActive store)"
    by (simp only: getCars_def Let_def filter_matches_active)
  have 5: "c \<notin> set (stats_match store)"
    using inactive by (simp add: stats_match_def)
  have 6: "getCarStats rt store = getCarStats rt (filter isActive store)"
    by (simp only: getCarStats_def stats_match_active)
  have 7: "findById store (car_id c) = Some c"
    using ids c by (rule findById_distinct)
  have 8: "\<forall>s. castObjectId rt s = Some (car_id c) \<longrightarrow>
               getCar rt now s store = (Inl NotFound, store)"
    using 7 inactive by (simp add: getCar_def)
  show ?thesis using 1 2 3 4 5 6 7 8 by blast
qed

text \<open>The witness takes the collection after the soft deletion of the listing 7.\<close>

theorem inactive_listings_hidden_witness:
  "(\<exists>r. getCars example_runtime no_filters
            (snd (deleteCar example_runtime 300 bob id_7 [honda, swift])) = Inr r
        \<and> map car_id (data r) = [8])
   \<and> map car_id (snd (deleteCar example_runtime 300 bob id_7 [honda, swift])) = [7, 8]
   \<and> getCar example_runtime 400 id_7 (snd (deleteCar example_runtime 300 bob id_7 [honda, swift]))
        = (Inl NotFound, snd (deleteCar example_runtime 300 bob id_7 [honda, swift]))
   \<and> findById (snd (deleteCar example_runtime 300 bob id_7 [honda, swift])) 7
        = Some (honda\<lparr>isActive := False, updatedAt := 300\<rparr>)
   \<and> stats_overview (getCarStats example_runtime
         (snd (deleteCar example_runtime 300 bob id_7 [honda, swift])))
        = stats_overview (getCarStats example_runtime [swift])"
proof -
  let ?c = "honda\<lparr>isActive := False, updatedAt := 300\<rparr>"
  have st: "snd (deleteCar example_runtime 300 bob id_7 [honda, swift]) = [?c, swift]"
    by (simp add: deleteCar_def example_ids(1) findById_def honda_def)
  have c: "?c \<in> set [?c, swift]" by simp
  have i: "\<not> isActive ?c" by simp
  have d: "distinct (map car_id [?c, swift])" by (simp add: honda_def swift_def)
  have id: "car_id ?c = 7" by (simp add: honda_def)
  have f: "filter isActive [?c, swift] = [swift]" by (simp add: swift_def)
  have g: "case getCars example_runtime no_filters [swift] of
             Inr r \<Rightarrow> map car_id (data r) = [8] | Inl e \<Rightarrow> False"
    by code_simp
  note h = inactive_listings_hidden [OF c i d, of no_filters example_runtime 400]
  from h have A: "getCars example_runtime no_filters [?c, swift]
                    = getCars example_runtime no_filters [swift]"
    unfolding f by blast
  from h have B: "getCarStats example_runtime [?c, swift] = getCarStats example_runtime [swift]"
    unfolding f by blast
  from h have C: "getCar example_runtime 400 id_7 [?c, swift] = (Inl NotFound, [?c, swift])"
    unfolding id using example_ids(1) by blast
  from h have D: "findById [?c, swift] 7 = Some ?c"
    unfolding id by blast
  from g obtain r where r: "getCars example_runtime no_filters [swift] = Inr r"
    and r8: "map car_id (data r) = [8]"
    by (auto split: sum.splits)
  have ids: "map car_id [?c, swift] = [7, 8]" by (simp add: honda_def swift_def)
  show ?thesis
    unfolding st using A B C D r r8 ids by simp
qed

text \<open>
  What the range filter does for every pair of bounds: a bound that is missing or 0 is
  not applied, any other bound is.
\<close>

lemma build_range_holds:
  "opt_holds (build_range lo hi) (\<lambda>r. in_range r x) =
     ((case lo of None \<Rightarrow> True | Some a \<Rightarrow> a = 0 \<or> a \<le> x)
      \<and> (case hi of None \<Rightarrow> True | Some b \<Rightarrow> b = 0 \<or> x \<le> b))"
  by (auto simp: opt_holds_def build_range_def in_range_def truthy_num_def split: option.splits)

text \<open>
  C4 fails for a bound that is 0, which the query validator accepts for \<^verbatim>\<open>maxPrice\<close> and
  \<^verbatim>\<open>maxYear\<close>: \<^verbatim>\<open>if (minPrice || maxPrice)\<close> and \<^verbatim>\<open>if (maxPrice)\<close> take the number 0 for a
  missing bound. With \<^verbatim>\<open>maxPrice=0\<close> the filter is the one of a request without bounds and
  both listings come back, priced 600000 and 800000; with \<^verbatim>\<open>minPrice=700000&maxPrice=0\<close>
  the listing priced 800000 comes back; with \<^verbatim>\<open>maxYear=0\<close> both listings come back. A
  bound other than 0 is applied: \<^verbatim>\<open>maxPrice=700000\<close> leaves the listing priced 600000. No
  listing has a price or a year of at most 0, so the three intervals of the claim are empty.
\<close>

theorem zero_bound_ignored:
  "build_filter (no_filters\<lparr>q_maxPrice := Some 0\<rparr>) = build_filter no_filters
   \<and> (case getCars example_runtime (no_filters\<lparr>q_maxPrice := Some 0\<rparr>) [honda, swift] of
        Inr r \<Rightarrow> map price (data r) = [600000, 800000] \<and> pg_total r = 2
      | Inl e \<Rightarrow> False)
   \<and> (case getCars example_runtime
              (no_filters\<lparr>q_minPrice := Some 700000, q_maxPrice := Some 0\<rparr>) [honda, swift] of
        Inr r \<Rightarrow> map price (data r) = [800000]
      | Inl e \<Rightarrow> False)
   \<and> (case getCars example_runtime (no_filters\<lparr>q_maxYear := Some 0\<rparr>) [honda, swift] of
        Inr r \<Rightarrow> map year (data r) = [2019, 2020]
      | Inl e \<Rightarrow> False)
   \<and> (case getCars example_runtime (no_filters\<lparr>q_maxPrice := Some 700000\<rparr>) [honda, swift] of
        Inr r \<Rightarrow> map price (data r) = [600000]
      | Inl e \<Rightarrow> False)
   \<and> filter (\<lambda>c. price c \<le> 0) [honda, swift] = []
   \<and> filter (\<lambda>c. 700000 \<le> price c \<and> price c \<le> 0) [honda, swift] = []
   \<and> filter (\<lambda>c. year c \<le> 0) [honda, swift] = []"
  by code_simp

section \<open>Properties of the aggregation engine\<close>

lemma count_list_map:
  "count_list (map f l) m = length (filter (\<lambda>c. f c = m) l)"
  by (induction l) auto

lemma sum_group_counts:
  "sum_list (map (\<lambda>m. length (filter (\<lambda>c. f c = m) l)) (remdups (map f l))) = length l"
proof -
  have "sum_list (map (\<lambda>m. length (filter (\<lambda>c. f c = m) l)) (remdups (map f l)))
          = sum_list (map (count_list (map f l)) (remdups (map f l)))"
    by (intro arg_cong [where f = sum_list] map_cong refl) (simp add: count_list_map)
  also have "\<dots> = sum (count_list (map f l)) (set (remdups (map f l)))"
    by (rule sum_list_distinct_conv_sum_set) simp
  also have "\<dots> = sum (count_list (map f l)) (set (map f l))" by simp
  also have "\<dots> = length (map f l)"
    by (rule sum_count_set) simp_all
  finally show ?thesis by simp
qed

lemma sum_list_insort_key:
  "sum_list (map (g :: 'a \<Rightarrow> nat) (insort_key k x xs)) = g x + sum_list (map g xs)"
  by (induction xs) auto

lemma sum_list_sort_key:
  "sum_list (map (g :: 'a \<Rightarrow> nat) (sort_key k xs)) = sum_list (map g xs)"
  by (induction xs) (auto simp: sum_list_insort_key)

lemma distinct_map_insort_key:
  "distinct (map g (insort_key k x xs)) \<longleftrightarrow> g x \<notin> g ` set xs \<and> distinct (map g xs)"
  by (induction xs) (auto simp: set_insort_key)

lemma distinct_map_sort_key:
  "distinct (map g (sort_key k xs)) \<longleftrightarrow> distinct (map g xs)"
  by (induction xs) (auto simp: distinct_map_insort_key)

lemma map_mg_id_group_by_make: "map mg_id (group_by_make rt l) = remdups (map car_make l)"
  by (simp add: group_by_make_def comp_def)

lemma map_mg_count_group_by_make:
  "map mg_count (group_by_make rt l)
     = map (\<lambda>m. length (filter (\<lambda>c. car_make c = m) l)) (remdups (map car_make l))"
  by (simp add: group_by_make_def comp_def)

lemma group_by_make_member:
  assumes "g \<in> set (group_by_make rt l)"
  shows "0 < mg_count g
         \<and> mg_count g = length (filter (\<lambda>c. car_make c = mg_id g) l)
         \<and> mg_avgPrice g = db_avg rt (map price (filter (\<lambda>c. car_make c = mg_id g) l))"
proof -
  from assms obtain m where m: "m \<in> set (map car_make l)"
    and g: "g = \<lparr>mg_id = m, mg_count = length (filter (\<lambda>c. car_make c = m) l),
                 mg_avgPrice = db_avg rt (map price (filter (\<lambda>c. car_make c = m) l))\<rparr>"
    by (auto simp: group_by_make_def)
  from m obtain c where "c \<in> set l" "car_make c = m" by auto
  then have "filter (\<lambda>c. car_make c = m) l \<noteq> []"
    by (auto simp: filter_empty_conv)
  then have "0 < length (filter (\<lambda>c. car_make c = m) l)" by simp
  with g show ?thesis by simp
qed

lemma group_by_make_has:
  assumes "m \<in> car_make ` set l"
  shows "\<exists>g \<in> set (group_by_make rt l). mg_id g = m"
proof -
  from assms have "m \<in> set (map mg_id (group_by_make rt l))"
    by (simp add: map_mg_id_group_by_make)
  then show ?thesis by auto
qed

text \<open>In a list in descending order, nothing after the first \<open>n\<close> elements exceeds any of them.\<close>

lemma sorted_wrt_take_drop:
  assumes "sorted_wrt P xs" and "a \<in> set (take n xs)" and "b \<in> set (drop n xs)"
  shows "P a b"
proof -
  have "sorted_wrt P (take n xs @ drop n xs)" using assms(1) by simp
  with assms(2,3) show ?thesis unfolding sorted_wrt_append by blast
qed

text \<open>
  C8. Let \<open>L\<close> be the listings of the collection that are active and available, in the
  order of the collection. When \<open>L\<close> is empty the overview is the empty object, and otherwise
  its \<open>totalCars\<close> is the length of \<open>L\<close>. \<open>topMakes\<close> has one group for each make of \<open>L\<close> up to
  10 groups, no make twice, in descending order of count; the count of a group is the
  number of listings of \<open>L\<close> with that make, never 0, and its average price is the store's
  \<^verbatim>\<open>$avg\<close> of their prices. A make of \<open>L\<close> that has no group in \<open>topMakes\<close> has at most as many
  listings as every group there. When \<open>L\<close> has at most 10 different makes every make has its
  group and the counts add up to the length of \<open>L\<close>.
\<close>

theorem getCarStats_counts:
  assumes L: "L = stats_match store" and s: "s = getCarStats rt store"
  shows "L = filter (\<lambda>c. isActive c \<and> status c = ''available'') store
         \<and> (L = [] \<longrightarrow> stats_overview s = None)
         \<and> (L \<noteq> [] \<longrightarrow> (\<exists>ov. stats_overview s = Some ov \<and> totalCars ov = length L))
         \<and> length (topMakes s) = min 10 (card (car_make ` set L))
         \<and> sorted_wrt (\<lambda>a b. mg_count b \<le> mg_count a) (topMakes s)
         \<and> distinct (map mg_id (topMakes s))
         \<and> (\<forall>g \<in> set (topMakes s).
               0 < mg_count g
               \<and> mg_count g = length (filter (\<lambda>c. car_make c = mg_id g) L)
               \<and> mg_avgPrice g = db_avg rt (map price (filter (\<lambda>c. car_make c = mg_id g) L)))
         \<and> (\<forall>m \<in> car_make ` set L. m \<notin> mg_id ` set (topMakes s) \<longrightarrow>
               (\<forall>g \<in> set (topMakes s). length (filter (\<lambda>c. car_make c = m) L) \<le> mg_count g))
         \<and> (card (car_make ` set L) \<le> 10 \<longrightarrow>
               mg_id ` set (topMakes s) = car_make ` set L
               \<and> sum_list (map mg_count (topMakes s)) = length L)"
proof -
  let ?k = "\<lambda>g. - int (mg_count g)"
  let ?sorted = "sort_key ?k (group_by_make rt L)"
  have top: "topMakes s = take 10 ?sorted"
    by (simp add: s L getCarStats_def)
  have len: "length (group_by_make rt L) = card (car_make ` set L)"
    by (simp add: group_by_make_def length_remdups_card_conv)
  have 1: "L = filter (\<lambda>c. isActive c \<and> status c = ''available'') store"
    by (simp add: L stats_match_def)
  have 2: "L = [] \<longrightarrow> stats_overview s = None"
    by (simp add: s L getCarStats_def overview_of_def)
  have 3: "L \<noteq> [] \<longrightarrow> (\<exists>ov. stats_overview s = Some ov \<and> totalCars ov = length L)"
    by (simp add: s L getCarStats_def overview_of_def)
  have 4: "length (topMakes s) = min 10 (card (car_make ` set L))"
    by (simp add: top len min.commute)
  have "sorted (map ?k ?sorted)" by (rule sorted_sort_key)
  then have "sorted_wrt (\<lambda>a b. ?k a \<le> ?k b) ?sorted" by (simp add: sorted_map)
  then have desc: "sorted_wrt (\<lambda>a b. mg_count b \<le> mg_count a) ?sorted" by simp
  then have 5: "sorted_wrt (\<lambda>a b. mg_count b \<le> mg_count a) (topMakes s)"
    unfolding top by (rule sorted_wrt_take)
  have "distinct (map mg_id ?sorted)"
    by (simp add: distinct_map_sort_key map_mg_id_group_by_make)
  then have 6: "distinct (map mg_id (topMakes s))"
    unfolding top take_map [symmetric] by (rule distinct_take)
  have sub: "set (topMakes s) \<subseteq> set (group_by_make rt L)"
    unfolding top using set_take_subset [of 10 ?sorted] by simp
  have 7: "\<forall>g \<in> set (topMakes s).
               0 < mg_count g
               \<and> mg_count g = length (filter (\<lambda>c. car_make c = mg_id g) L)
               \<and> mg_avgPrice g = db_avg rt (map price (filter (\<lambda>c. car_make c = mg_id g) L))"
    using sub group_by_make_member [of _ rt L] by blast
  have 8: "\<forall>m \<in> car_make ` set L. m \<notin> mg_id ` set (topMakes s) \<longrightarrow>
               (\<forall>g \<in> set (topMakes s). length (filter (\<lambda>c. car_make c = m) L) \<le> mg_count g)"
  proof (intro ballI impI)
    fix m g
    assume m: "m \<in> car_make ` set L" and out: "m \<notin> mg_id ` set (topMakes s)"
      and g: "g \<in> set (topMakes s)"
    from m obtain g' where g': "g' \<in> set (group_by_make rt L)" and id: "mg_id g' = m"
      using group_by_make_has by blast
    from g' have "g' \<in> set (take 10 ?sorted @ drop 10 ?sorted)" by simp
    with out id have "g' \<in> set (drop 10 ?sorted)" unfolding top set_append by blast
    with desc g have "mg_count g' \<le> mg_count g"
      unfolding top using sorted_wrt_take_drop [of _ ?sorted g 10 g'] by blast
    moreover have "mg_count g' = length (filter (\<lambda>c. car_make c = m) L)"
      using group_by_make_member [OF g'] id by simp
    ultimately show "length (filter (\<lambda>c. car_make c = m) L) \<le> mg_count g" by simp
  qed
  have 9: "card (car_make ` set L) \<le> 10 \<longrightarrow>
               mg_id ` set (topMakes s) = car_make ` set L
               \<and> sum_list (map mg_count (topMakes s)) = length L"
  proof
    assume c: "card (car_make ` set L) \<le> 10"
    with len have all: "topMakes s = ?sorted" by (simp add: top)
    have "mg_id ` set (topMakes s) = set (map mg_id (group_by_make rt L))"
      unfolding all by simp
    then have ids: "mg_id ` set (topMakes s) = car_make ` set L"
      by (simp add: map_mg_id_group_by_make)
    have "sum_list (map mg_count (topMakes s)) = sum_list (map mg_count (group_by_make rt L))"
      unfolding all by (simp add: sum_list_sort_key)
    also have "\<dots> = length L"
      unfolding map_mg_count_group_by_make by (rule sum_group_counts)
    finally show "mg_id ` set (topMakes s) = car_make ` set L
               \<and> sum_list (map mg_count (topMakes s)) = length L"
      using ids by simp
  qed
  show ?thesis using 1 2 3 4 5 6 7 8 9 by blast
qed

text \<open>
  The witness has a collection with a sold listing, the empty collection, and the thirteen
  listings of twelve makes, where ten groups are kept and \<^verbatim>\<open>Top\<close> leads them.
\<close>

theorem getCarStats_counts_witness:
  "stats_match [honda, swift, honda\<lparr>car_id := 9, status := ''sold''\<rparr>, honda\<lparr>car_id := 10\<rparr>]
     = [honda, swift, honda\<lparr>car_id := 10\<rparr>]
   \<and> (\<exists>ov. stats_overview (getCarStats example_runtime
               [honda, swift, honda\<lparr>car_id := 9, status := ''sold''\<rparr>, honda\<lparr>car_id := 10\<rparr>]) = Some ov
            \<and> totalCars ov = 3)
   \<and> topMakes (getCarStats example_runtime
         [honda, swift, honda\<lparr>car_id := 9, status := ''sold''\<rparr>, honda\<lparr>car_id := 10\<rparr>])
       = [\<lparr>mg_id = ''Honda'', mg_count = 2, mg_avgPrice = 800000\<rparr>,
          \<lparr>mg_id = ''Maruti suzuki'', mg_count = 1, mg_avgPrice = 600000\<rparr>]
   \<and> stats_overview (getCarStats example_runtime []) = None
   \<and> length (topMakes (getCarStats example_runtime fleet)) = 10
   \<and> take 1 (topMakes (getCarStats example_runtime fleet))
       = [\<lparr>mg_id = ''Top'', mg_count = 2, mg_avgPrice = 800000\<rparr>]
   \<and> sum_list (map mg_count (topMakes (getCarStats example_runtime fleet))) = 11"
proof -
  let ?store = "[honda, swift, honda\<lparr>car_id := 9, status := ''sold''\<rparr>, honda\<lparr>car_id := 10\<rparr>]"
  have m: "stats_match ?store = [honda, swift, honda\<lparr>car_id := 10\<rparr>]"
    by (simp add: stats_match_def honda_def swift_def)
  have t: "topMakes (getCarStats example_runtime ?store)
       = [\<lparr>mg_id = ''Honda'', mg_count = 2, mg_avgPrice = 800000\<rparr>,
          \<lparr>mg_id = ''Maruti suzuki'', mg_count = 1, mg_avgPrice = 600000\<rparr>]"
    by code_simp
  have n: "[honda, swift, honda\<lparr>car_id := 10\<rparr>] \<noteq> []" by simp
  have e: "([]::car list) = stats_match []" by (simp add: stats_match_def)
  from getCarStats_counts [OF m [symmetric] refl] n
  have o: "\<exists>ov. stats_overview (getCarStats example_runtime ?store) = Some ov
              \<and> totalCars ov = length [honda, swift, honda\<lparr>car_id := 10\<rparr>]"
    by blast
  from getCarStats_counts [OF e refl]
  have z: "stats_overview (getCarStats example_runtime []) = None"
    by blast
  have c: "card (car_make ` set (stats_match fleet)) = 12" by code_simp
  from getCarStats_counts [OF refl refl, of fleet example_runtime] c
  have l: "length (topMakes (getCarStats example_runtime fleet)) = 10"
    by simp
  have h: "take 1 (topMakes (getCarStats example_runtime fleet))
       = [\<lparr>mg_id = ''Top'', mg_count = 2, mg_avgPrice = 800000\<rparr>]"
    by code_simp
  have u: "sum_list (map mg_count (topMakes (getCarStats example_runtime fleet))) = 11"
    by code_simp
  show ?thesis using m t o z l h u by (simp add: numeral_3_eq_3)
qed

end
